theory Spec2Isabelle
  imports Main "HOL-Library.Word"
begin

section \<open>Python values shared by the two scripts\<close>

text \<open>
  Both scripts guard their calls with \<^verbatim>\<open>except Exception\<close>. A value of
  \<open>exn\<close> stands for an instance of Python's \<^verbatim>\<open>Exception\<close>; the classes the
  scripts' own statements can raise are named, \<open>OSError\<close> carries the message of the
  operating system's error when it has no class of its own, and whatever an external
  library or service raises is a \<open>ServiceError\<close> carrying its message.
\<close>

datatype exn =
    AttributeError
  | KeyError
  | TypeError
  | ValidationError
  | JSONDecodeError
  | ValueError
  | FileNotFoundError
  | NotADirectoryError
  | IsADirectoryError
  | FileExistsError
  | OSError string
  | ServiceError string

text \<open>
  The value \<^verbatim>\<open>json.load\<close> returns. An object is the parsed \<^verbatim>\<open>dict\<close>, kept as
  an association list that is read with \<open>map_of\<close>. Numbers are integers: no statement of
  the scripts tells one number from another.
\<close>

datatype json =
    JNull
  | JBool bool
  | JNum int
  | JStr string
  | JArr "json list"
  | JObj "(string \<times> json) list"

text \<open>\<^verbatim>\<open>v[k]\<close> with a string key: only a dict answers, and only for a key it has.\<close>

fun subscript :: "json \<Rightarrow> string \<Rightarrow> exn + json" where
  "subscript (JObj kvs) k = (case map_of kvs k of None \<Rightarrow> Inl KeyError | Some v \<Rightarrow> Inr v)"
| "subscript v k = Inl TypeError"

text \<open>
  \<^verbatim>\<open>for msg in v\<close>: a list yields its items, a dict its keys, a string its characters;
  nothing else can be iterated.
\<close>

fun iterate :: "json \<Rightarrow> exn + json list" where
  "iterate (JArr xs) = Inr xs"
| "iterate (JObj kvs) = Inr (map JStr (remdups (map fst kvs)))"
| "iterate (JStr s) = Inr (map (\<lambda>c. JStr [c]) s)"
| "iterate v = Inl TypeError"

section \<open>Configuration (config.py)\<close>

definition PDF_PATH :: string where
  "PDF_PATH = ''data/jemh109.pdf''"

definition QDRANT_URL :: string where
  "QDRANT_URL = ''http://localhost:6333''"

definition COLLECTION_NAME :: string where
  "COLLECTION_NAME = ''jmeh_multimodal''"

section \<open>Python strings\<close>

text \<open>
  A Python \<^verbatim>\<open>str\<close> is a \<open>string\<close>: a list of characters with code points below
  256. \<open>isspace\<close> lists the characters of that range that \<^verbatim>\<open>str.strip()\<close> removes.
\<close>

definition isspace :: "char \<Rightarrow> bool" where
  "isspace c = ((of_char c :: nat) \<in> {9, 10, 11, 12, 13, 28, 29, 30, 31, 32, 133, 160})"

definition strip :: "string \<Rightarrow> string" where
  "strip s = rev (dropWhile isspace (rev (dropWhile isspace s)))"

text \<open>\<^verbatim>\<open>s.split(d)\<close> for a one-character separator; the result is never empty.\<close>

fun split_on :: "char \<Rightarrow> string \<Rightarrow> string list" where
  "split_on d [] = [[]]"
| "split_on d (c # cs) =
     (if c = d then [] # split_on d cs
      else (case split_on d cs of
              [] \<Rightarrow> [[c]]
            | w # ws \<Rightarrow> (c # w) # ws))"

text \<open>\<^verbatim>\<open>s.replace(c, "")\<close> for a one-character \<open>c\<close>.\<close>

definition remove_char :: "char \<Rightarrow> string \<Rightarrow> string" where
  "remove_char c s = filter (\<lambda>x. x \<noteq> c) s"

fun starts_with :: "string \<Rightarrow> string \<Rightarrow> bool" where
  "starts_with s [] = True"
| "starts_with [] (p # ps) = False"
| "starts_with (c # cs) (p # ps) = (c = p \<and> starts_with cs ps)"

text \<open>\<^verbatim>\<open>sub in s\<close>.\<close>

fun contains :: "string \<Rightarrow> string \<Rightarrow> bool" where
  "contains sub [] = (sub = [])"
| "contains sub (c # cs) = (starts_with (c # cs) sub \<or> contains sub cs)"

text \<open>\<^verbatim>\<open>str(n)\<close> for an integer, and for a page number that may be \<^verbatim>\<open>None\<close>.\<close>

fun str_nat :: "nat \<Rightarrow> string" where
  "str_nat n =
     (if n < 10 then [''0123456789'' ! n]
      else str_nat (n div 10) @ [''0123456789'' ! (n mod 10)])"

declare str_nat.simps [simp del]

definition str_int :: "int \<Rightarrow> string" where
  "str_int i = (if i < 0 then ''-'' @ str_nat (nat (- i)) else str_nat (nat i))"

fun str_page :: "int option \<Rightarrow> string" where
  "str_page None = ''None''"
| "str_page (Some i) = str_int i"

section \<open>Conversational memory (rag\_query.py)\<close>

text \<open>
  A chat message is a \<^verbatim>\<open>HumanMessage\<close>, an \<^verbatim>\<open>AIMessage\<close> or a message of any
  other class (named by its class); \<open>content\<close> is its \<^verbatim>\<open>.content\<close>.
\<close>

datatype message =
    HumanMessage json
  | AIMessage json
  | OtherMessage string json

fun content :: "message \<Rightarrow> json" where
  "content (HumanMessage c) = c"
| "content (AIMessage c) = c"
| "content (OtherMessage k c) = c"

fun is_HumanMessage :: "message \<Rightarrow> bool" where
  "is_HumanMessage (HumanMessage c) = True"
| "is_HumanMessage m = False"

text \<open>
  The message classes declare \<^verbatim>\<open>content: Union[str, list[Union[str, dict]]]\<close> and
  validate it when a message is constructed.
\<close>

fun content_part_ok :: "json \<Rightarrow> bool" where
  "content_part_ok (JStr s) = True"
| "content_part_ok (JObj kvs) = True"
| "content_part_ok v = False"

fun content_ok :: "json \<Rightarrow> bool" where
  "content_ok (JStr s) = True"
| "content_ok (JArr xs) = list_all content_part_ok xs"
| "content_ok v = False"

definition new_HumanMessage :: "json \<Rightarrow> exn + message" where
  "new_HumanMessage c = (if content_ok c then Inr (HumanMessage c) else Inl ValidationError)"

definition new_AIMessage :: "json \<Rightarrow> exn + message" where
  "new_AIMessage c = (if content_ok c then Inr (AIMessage c) else Inl ValidationError)"

text \<open>
  A \<^verbatim>\<open>pathlib\<close> path on a POSIX system: its root (empty for a relative path,
  otherwise one slash, or two when the text starts with exactly two) and its components.
  Parsing a text drops empty components and the components that are a single dot.
\<close>

record path =
  path_root :: string
  path_parts :: "string list"

definition parse_root :: "string \<Rightarrow> string" where
  "parse_root s =
     (if starts_with s ''///'' then ''/''
      else if starts_with s ''//'' then ''//''
      else if starts_with s ''/'' then ''/''
      else [])"

definition parse_parts :: "string \<Rightarrow> string list" where
  "parse_parts s = filter (\<lambda>c. c \<noteq> [] \<and> c \<noteq> ''.'') (split_on (CHR ''/'') s)"

definition Path :: "string \<Rightarrow> path" where
  "Path s = \<lparr>path_root = parse_root s, path_parts = parse_parts s\<rparr>"

text \<open>\<^verbatim>\<open>p / s\<close>: a text with a root replaces the path, any other text extends it.\<close>

definition joinpath :: "path \<Rightarrow> string \<Rightarrow> path" where
  "joinpath p s =
     (if parse_root s = [] then p\<lparr>path_parts := path_parts p @ parse_parts s\<rparr> else Path s)"

fun join_parts :: "string list \<Rightarrow> string" where
  "join_parts [] = []"
| "join_parts [c] = c"
| "join_parts (c # cs) = c @ ''/'' @ join_parts cs"

text \<open>\<^verbatim>\<open>str(p)\<close>, the text handed to the operating system.\<close>

definition path_str :: "path \<Rightarrow> string" where
  "path_str p =
     (if path_root p = [] \<and> path_parts p = [] then ''.''
      else path_root p @ join_parts (path_parts p))"

text \<open>The number of bytes of a text in UTF-8: two for a character from 128 on.\<close>

definition utf8_length :: "string \<Rightarrow> nat" where
  "utf8_length s = length s + length (filter (\<lambda>c. 128 \<le> (of_char c :: nat)) s)"

text \<open>
  The file system of a Linux machine: the working directory and what is at each
  location, a location being the list of names from the root directory down. The root
  directory is always there. A regular file holds a JSON document or text that
  \<^verbatim>\<open>json.load\<close> rejects. Symbolic links and permissions are not modelled.
\<close>

datatype file_data = JsonDoc json | NotJson string

datatype node = Directory | Regular file_data

type_synonym loc = "string list"

record fs =
  cwd :: loc
  nodes :: "loc \<rightharpoonup> node"

definition node_at :: "fs \<Rightarrow> loc \<Rightarrow> node option" where
  "node_at f l = (if l = [] then Some Directory else nodes f l)"

text \<open>
  The kernel's walk along the components of a path, from the directory \<open>cur\<close>: two dots
  lead to the parent, a name of more than 255 bytes is refused, every component but the
  last must be a directory, and the last names a location where anything or nothing may be.
\<close>

fun walk :: "fs \<Rightarrow> loc \<Rightarrow> string list \<Rightarrow> exn + loc" where
  "walk f cur [] = Inr cur"
| "walk f cur (c # cs) =
     (if c = ''..'' then walk f (butlast cur) cs
      else if 255 < utf8_length c then Inl (OSError ''File name too long'')
      else if cs = [] then Inr (cur @ [c])
      else
        (case node_at f (cur @ [c]) of
           None \<Rightarrow> Inl FileNotFoundError
         | Some (Regular d) \<Rightarrow> Inl NotADirectoryError
         | Some Directory \<Rightarrow> walk f (cur @ [c]) cs))"

text \<open>
  The location a path names. Python refuses a text with a null character before the
  operating system sees it, and the system refuses a text of 4096 bytes or more.
\<close>

definition resolve :: "fs \<Rightarrow> path \<Rightarrow> exn + loc" where
  "resolve f p =
     (if CHR 0x00 \<in> set (path_str p) then Inl ValueError
      else if 4096 \<le> utf8_length (path_str p) then Inl (OSError ''File name too long'')
      else walk f (if path_root p = [] then cwd f else []) (path_parts p))"

text \<open>\<^verbatim>\<open>os.stat\<close>: what is at the path.\<close>

definition stat :: "fs \<Rightarrow> path \<Rightarrow> exn + node" where
  "stat f p =
     (case resolve f p of
        Inl e \<Rightarrow> Inl e
      | Inr l \<Rightarrow> (case node_at f l of None \<Rightarrow> Inl FileNotFoundError | Some n \<Rightarrow> Inr n))"

text \<open>
  \<^verbatim>\<open>Path.exists()\<close>, as in Python 3.11: it answers \<^verbatim>\<open>False\<close> when \<^verbatim>\<open>stat\<close>
  finds a file or directory missing or the text is no path, and lets every other error
  through.
\<close>

definition Path_exists :: "fs \<Rightarrow> path \<Rightarrow> exn + bool" where
  "Path_exists f p =
     (case stat f p of
        Inr n \<Rightarrow> Inr True
      | Inl e \<Rightarrow>
          if e = FileNotFoundError \<or> e = NotADirectoryError \<or> e = ValueError then Inr False
          else Inl e)"

text \<open>\<^verbatim>\<open>Path.mkdir(exist_ok=...)\<close>.\<close>

definition Path_mkdir :: "fs \<Rightarrow> path \<Rightarrow> bool \<Rightarrow> exn + fs" where
  "Path_mkdir f p exist_ok =
     (case resolve f p of
        Inl e \<Rightarrow> Inl e
      | Inr l \<Rightarrow>
          (case node_at f l of
             None \<Rightarrow> Inr (f\<lparr>nodes := (nodes f)(l \<mapsto> Directory)\<rparr>)
           | Some Directory \<Rightarrow> if exist_ok then Inr f else Inl FileExistsError
           | Some (Regular d) \<Rightarrow> Inl FileExistsError))"

text \<open>\<^verbatim>\<open>open(p, 'r')\<close> and reading the whole file.\<close>

definition open_r :: "fs \<Rightarrow> path \<Rightarrow> exn + file_data" where
  "open_r f p =
     (case resolve f p of
        Inl e \<Rightarrow> Inl e
      | Inr l \<Rightarrow>
          (case node_at f l of
             None \<Rightarrow> Inl FileNotFoundError
           | Some Directory \<Rightarrow> Inl IsADirectoryError
           | Some (Regular d) \<Rightarrow> Inr d))"

text \<open>
  \<^verbatim>\<open>open(p, 'w')\<close> and writing the whole file: the file is created or replaced; nothing
  changes when the call raises.
\<close>

definition open_w :: "fs \<Rightarrow> path \<Rightarrow> file_data \<Rightarrow> exn + fs" where
  "open_w f p d =
     (case resolve f p of
        Inl e \<Rightarrow> Inl e
      | Inr l \<Rightarrow>
          (case node_at f l of
             Some Directory \<Rightarrow> Inl IsADirectoryError
           | other \<Rightarrow> Inr (f\<lparr>nodes := (nodes f)(l \<mapsto> Regular d)\<rparr>)))"

text \<open>
  \<^verbatim>\<open>SESSION_DIR\<close>, and the statement after it, which runs when the script is loaded.
\<close>

definition SESSION_DIR :: path where
  "SESSION_DIR = Path ''./chat_sessions''"

definition make_session_dir :: "fs \<Rightarrow> exn + fs" where
  "make_session_dir f = Path_mkdir f SESSION_DIR True"

definition session_file :: "string \<Rightarrow> path" where
  "session_file session_id = joinpath SESSION_DIR (session_id @ ''.json'')"

text \<open>The loop of \<^verbatim>\<open>load_memory\<close>; \<open>messages\<close> is the list it appends to.\<close>

fun load_messages :: "json list \<Rightarrow> message list \<Rightarrow> exn + message list" where
  "load_messages [] messages = Inr messages"
| "load_messages (msg # rest) messages =
     (case subscript msg ''type'' of
        Inl e \<Rightarrow> Inl e
      | Inr t \<Rightarrow>
          if t = JStr ''human'' then
            (case subscript msg ''content'' of
               Inl e \<Rightarrow> Inl e
             | Inr c \<Rightarrow>
                 (case new_HumanMessage c of
                    Inl e \<Rightarrow> Inl e
                  | Inr m \<Rightarrow> load_messages rest (messages @ [m])))
          else if t = JStr ''ai'' then
            (case subscript msg ''content'' of
               Inl e \<Rightarrow> Inl e
             | Inr c \<Rightarrow>
                 (case new_AIMessage c of
                    Inl e \<Rightarrow> Inl e
                  | Inr m \<Rightarrow> load_messages rest (messages @ [m])))
          else load_messages rest messages)"

definition load_memory :: "fs \<Rightarrow> string \<Rightarrow> exn + message list" where
  "load_memory f session_id =
     (case Path_exists f (session_file session_id) of
        Inl e \<Rightarrow> Inl e
      | Inr False \<Rightarrow> Inr []
      | Inr True \<Rightarrow>
          (case open_r f (session_file session_id) of
             Inl e \<Rightarrow> Inl e
           | Inr (NotJson txt) \<Rightarrow> Inl JSONDecodeError
           | Inr (JsonDoc history_dicts) \<Rightarrow>
               (case iterate history_dicts of
                  Inl e \<Rightarrow> Inl e
                | Inr entries \<Rightarrow> load_messages entries [])))"

definition history_dict :: "message \<Rightarrow> json" where
  "history_dict msg =
     JObj [(''type'', JStr (if is_HumanMessage msg then ''human'' else ''ai'')),
           (''content'', content msg)]"

definition save_memory :: "fs \<Rightarrow> string \<Rightarrow> message list \<Rightarrow> exn + fs" where
  "save_memory f session_id history_messages =
     open_w f (session_file session_id) (JsonDoc (JArr (map history_dict history_messages)))"

section \<open>The query run (rag\_query.py, main)\<close>

record args =
  arg_question :: string
  arg_summarize :: bool
  arg_session_id :: "string option"

text \<open>
  \<^verbatim>\<open>if args.session_id:\<close> holds for a string that is not empty; the flag's
  default is \<^verbatim>\<open>None\<close>.
\<close>

definition session_of :: "args \<Rightarrow> string option" where
  "session_of a =
     (case arg_session_id a of
        None \<Rightarrow> None
      | Some sid \<Rightarrow> if sid = [] then None else Some sid)"

text \<open>
  What the run reaches outside the script: \<open>connect\<close> is what building the model,
  embedding and vector-store clients raises, if anything; the three chains are the
  retriever followed by \<^verbatim>\<open>format_docs\<close>, the summarizer and the prompt, model and
  parser that produce the answer.
\<close>

record query_services =
  connect :: "exn option"
  retrieval_chain :: "string \<Rightarrow> exn + string"
  summarizer_chain :: "string \<Rightarrow> exn + string"
  answer_chain :: "message list \<Rightarrow> string \<Rightarrow> string \<Rightarrow> exn + string"

record chain_result =
  res_context :: string
  res_summary :: string
  res_answer :: string

definition full_rag_chain ::
  "query_services \<Rightarrow> args \<Rightarrow> message list \<Rightarrow> exn + chain_result" where
  "full_rag_chain sv a chat_history =
     (case retrieval_chain sv (arg_question a) of
        Inl e \<Rightarrow> Inl e
      | Inr ctx \<Rightarrow>
          (case (if arg_summarize a then summarizer_chain sv ctx else Inr ''N/A'') of
             Inl e \<Rightarrow> Inl e
           | Inr summary \<Rightarrow>
               (case answer_chain sv chat_history ctx (arg_question a) of
                  Inl e \<Rightarrow> Inl e
                | Inr answer \<Rightarrow>
                    Inr \<lparr>res_context = ctx, res_summary = summary, res_answer = answer\<rparr>)))"

datatype query_outcome =
    Answered chain_result
  | ConnectFailed exn
  | QueryRaised exn

text \<open>
  \<^verbatim>\<open>main\<close>. The answer is printed before the history is saved, so a run that raises
  while saving has produced its answer and written nothing.
\<close>

definition query_main :: "query_services \<Rightarrow> args \<Rightarrow> fs \<Rightarrow> query_outcome \<times> fs" where
  "query_main sv a f =
     (case connect sv of
        Some e \<Rightarrow> (ConnectFailed e, f)
      | None \<Rightarrow>
          (case (case session_of a of
                   None \<Rightarrow> Inr []
                 | Some sid \<Rightarrow> load_memory f sid) of
             Inl e \<Rightarrow> (QueryRaised e, f)
           | Inr chat_history \<Rightarrow>
               (case full_rag_chain sv a chat_history of
                  Inl e \<Rightarrow> (QueryRaised e, f)
                | Inr result \<Rightarrow>
                    (case session_of a of
                       None \<Rightarrow> (Answered result, f)
                     | Some sid \<Rightarrow>
                         (case save_memory f sid
                                 (chat_history @
                                    [HumanMessage (JStr (arg_question a)),
                                     AIMessage (JStr (res_answer result))]) of
                            Inl e \<Rightarrow> (QueryRaised e, f)
                          | Inr f' \<Rightarrow> (Answered result, f'))))))"

text \<open>A run of the script: the session directory is made, then \<^verbatim>\<open>main\<close> runs.\<close>

definition query_script :: "query_services \<Rightarrow> args \<Rightarrow> fs \<Rightarrow> query_outcome \<times> fs" where
  "query_script sv a f =
     (case make_session_dir f of
        Inl e \<Rightarrow> (QueryRaised e, f)
      | Inr f0 \<Rightarrow> query_main sv a f0)"

section \<open>Elements and documents\<close>

type_synonym bytes = "8 word list"

text \<open>
  One element of the partitioning output. \<open>type_repr\<close> is \<^verbatim>\<open>str(type(el))\<close>;
  \<open>el_text\<close> is \<^verbatim>\<open>el.text\<close>, \<open>None\<close> when the object has no such attribute;
  \<open>el_image_bytes\<close> is \<^verbatim>\<open>el.image_bytes\<close>, \<open>None\<close> when the attribute is
  absent or \<^verbatim>\<open>None\<close>; the last two fields are \<^verbatim>\<open>el.metadata.page_number\<close> and
  \<^verbatim>\<open>el.metadata.text_as_html\<close>, \<open>None\<close> for \<^verbatim>\<open>None\<close>.
\<close>

record element =
  type_repr :: string
  el_text :: "string option"
  el_image_bytes :: "bytes option"
  el_page_number :: "int option"
  el_text_as_html :: "string option"

definition element_type :: "element \<Rightarrow> string" where
  "element_type el =
     remove_char (CHR ''>'') (remove_char (CHR 0x27) (last (split_on (CHR ''.'') (type_repr el))))"

text \<open>A \<^verbatim>\<open>Document\<close>: the content and the three metadata keys the indexer sets.\<close>

record document =
  page_content :: string
  md_source :: string
  md_page_number :: "int option"
  md_type :: string

section \<open>The indexing run (setup\_pipeline.py)\<close>

text \<open>What a chat model is invoked with: a plain prompt or a list of messages.\<close>

datatype llm_input = Prompt string | Messages "message list"

text \<open>
  The calls that leave the process, in the order they are made. What the scripts print is
  not modelled.
\<close>

datatype event =
    EmbeddingsInit
  | VisionInit
  | VisionInvoke llm_input
  | PartitionPdf string
  | QdrantFromDocuments "document list" string string bool

text \<open>
  Everything outside the script is a parameter of the run. \<open>'w\<close> is the state of the
  vision model's server, which answers an invocation with a description or an exception
  and moves to a new state; \<open>'s\<close> is the state of the vector store; \<open>'img\<close> is a decoded
  image. \<open>embeddings_init\<close> and \<open>vision_init\<close> are what constructing the two clients
  raises, if anything.
\<close>

record ('w, 's, 'img) services =
  path_exists :: "string \<Rightarrow> bool"
  embeddings_init :: "exn option"
  vision_init :: "exn option"
  vision_invoke :: "'w \<Rightarrow> llm_input \<Rightarrow> (exn + string) \<times> 'w"
  partition_pdf :: "string \<Rightarrow> exn + element list"
  image_open :: "bytes \<Rightarrow> exn + 'img"
  image_thumbnail :: "'img \<Rightarrow> nat \<times> nat \<Rightarrow> exn + 'img"
  image_save_png :: "'img \<Rightarrow> exn + bytes"
  b64encode :: "bytes \<Rightarrow> string"
  from_documents :: "'s \<Rightarrow> document list \<Rightarrow> string \<Rightarrow> string \<Rightarrow> bool \<Rightarrow> exn option \<times> 's"

text \<open>The state of a run: the list \<^verbatim>\<open>documents\<close>, the two servers and the calls made.\<close>

record ('w, 's) run_state =
  documents :: "document list"
  vision_state :: 'w
  store :: 's
  trace :: "event list"

definition encode_image_to_base64 :: "('w, 's, 'img) services \<Rightarrow> 'img \<Rightarrow> exn + string" where
  "encode_image_to_base64 sv img =
     (case image_save_png sv img of
        Inl e \<Rightarrow> Inl e
      | Inr buffered \<Rightarrow> Inr (b64encode sv buffered))"

definition vision_prompt :: string where
  "vision_prompt =
     ''Describe this image in detail. What mathematical concepts, '' @
     ''diagrams, or formulas are visible? Be descriptive. This '' @
     ''description will be used for a search index.''"

definition vision_message :: "string \<Rightarrow> message" where
  "vision_message img_b64 =
     HumanMessage (JArr
       [JObj [(''type'', JStr ''text''), (''text'', JStr vision_prompt)],
        JObj [(''type'', JStr ''image_url''),
              (''image_url'', JStr (''data:image/png;base64,'' @ img_b64))]])"

text \<open>The body of the \<^verbatim>\<open>try\<close> block of \<^verbatim>\<open>summarize_image\<close>.\<close>

definition summarize_try ::
  "('w, 's, 'img) services \<Rightarrow> bytes \<Rightarrow> ('w, 's) run_state \<Rightarrow> (exn + string) \<times> ('w, 's) run_state" where
  "summarize_try sv image_bytes st =
     (case image_open sv image_bytes of
        Inl e \<Rightarrow> (Inl e, st)
      | Inr pil_image \<Rightarrow>
          (case image_thumbnail sv pil_image (1024, 1024) of
             Inl e \<Rightarrow> (Inl e, st)
           | Inr small \<Rightarrow>
               (case encode_image_to_base64 sv small of
                  Inl e \<Rightarrow> (Inl e, st)
                | Inr img_b64 \<Rightarrow>
                    (case vision_invoke sv (vision_state st) (Messages [vision_message img_b64]) of
                       (response, w) \<Rightarrow>
                         (response,
                          st\<lparr>vision_state := w,
                             trace := trace st @ [VisionInvoke (Messages [vision_message img_b64])]\<rparr>)))))"

text \<open>\<^verbatim>\<open>summarize_image\<close>: the \<^verbatim>\<open>try\<close> block and its \<^verbatim>\<open>except Exception\<close> handler.\<close>

definition summarize_image ::
  "('w, 's, 'img) services \<Rightarrow> bytes \<Rightarrow> ('w, 's) run_state \<Rightarrow> (exn + string) \<times> ('w, 's) run_state" where
  "summarize_image sv image_bytes st =
     (case summarize_try sv image_bytes st of
        (Inl e, st') \<Rightarrow> (Inr ''Failed to summarize image'', st')
      | (Inr description, st') \<Rightarrow> (Inr description, st'))"


text \<open>
  One pass of the loop over \<^verbatim>\<open>elements\<close>. An exception that leaves the loop is
  returned with the state reached.
\<close>

definition process_element ::
  "('w, 's, 'img) services \<Rightarrow> element \<Rightarrow> ('w, 's) run_state \<Rightarrow>
   (exn \<times> ('w, 's) run_state) + ('w, 's) run_state" where
  "process_element sv el st =
     (if element_type el = ''Image'' then
        (case el_image_bytes el of
           None \<Rightarrow> Inr st
         | Some image_bytes \<Rightarrow>
             if image_bytes = [] then Inr st
             else
               (case summarize_image sv image_bytes st of
                  (Inl e, st') \<Rightarrow> Inl (e, st')
                | (Inr summary, st') \<Rightarrow>
                    Inr (st'\<lparr>documents := documents st' @
                           [\<lparr>page_content = summary,
                             md_source = PDF_PATH,
                             md_page_number = el_page_number el,
                             md_type = ''image_summary''\<rparr>]\<rparr>)))
      else if contains ''Table'' (element_type el) then
        (case (case el_text_as_html el of
                 None \<Rightarrow> (case el_text el of None \<Rightarrow> Inl AttributeError | Some t \<Rightarrow> Inr t)
               | Some html \<Rightarrow>
                   if html = [] then
                     (case el_text el of None \<Rightarrow> Inl AttributeError | Some t \<Rightarrow> Inr t)
                   else
                     Inr (''Table on page '' @ str_page (el_page_number el) @ '':'' @
                          [CHR 0x0A] @ html)) of
           Inl e \<Rightarrow> Inl (e, st)
         | Inr table_content \<Rightarrow>
             Inr (st\<lparr>documents := documents st @
                    [\<lparr>page_content = table_content,
                      md_source = PDF_PATH,
                      md_page_number = el_page_number el,
                      md_type = ''table''\<rparr>]\<rparr>))
      else
        (case el_text el of
           None \<Rightarrow> Inr st
         | Some t \<Rightarrow>
             if strip t = [] then Inr st
             else
               Inr (st\<lparr>documents := documents st @
                      [\<lparr>page_content = t,
                        md_source = PDF_PATH,
                        md_page_number = el_page_number el,
                        md_type = element_type el\<rparr>]\<rparr>)))"

fun process_elements ::
  "('w, 's, 'img) services \<Rightarrow> element list \<Rightarrow> ('w, 's) run_state \<Rightarrow>
   (exn \<times> ('w, 's) run_state) + ('w, 's) run_state" where
  "process_elements sv [] st = Inr st"
| "process_elements sv (el # els) st =
     (case process_element sv el st of
        Inl raised \<Rightarrow> Inl raised
      | Inr st' \<Rightarrow> process_elements sv els st')"

datatype index_outcome =
    Indexed
  | PdfMissing
  | InitFailed exn
  | PartitionFailed exn
  | NoDocuments
  | IndexRaised exn

text \<open>Step 1 of \<^verbatim>\<open>main\<close>: the two clients and the test invocation.\<close>

definition init_models ::
  "('w, 's, 'img) services \<Rightarrow> ('w, 's) run_state \<Rightarrow> exn option \<times> ('w, 's) run_state" where
  "init_models sv st =
     (case embeddings_init sv of
        Some e \<Rightarrow> (Some e, st\<lparr>trace := trace st @ [EmbeddingsInit]\<rparr>)
      | None \<Rightarrow>
          (case vision_init sv of
             Some e \<Rightarrow> (Some e, st\<lparr>trace := trace st @ [EmbeddingsInit, VisionInit]\<rparr>)
           | None \<Rightarrow>
               (case vision_invoke sv (vision_state st) (Prompt ''test'') of
                  (response, w) \<Rightarrow>
                    ((case response of Inl e \<Rightarrow> Some e | Inr r \<Rightarrow> None),
                     st\<lparr>vision_state := w,
                        trace := trace st @
                          [EmbeddingsInit, VisionInit, VisionInvoke (Prompt ''test'')]\<rparr>))))"

text \<open>Step 4 of \<^verbatim>\<open>main\<close>: the one call to the vector store.\<close>

definition store_documents ::
  "('w, 's, 'img) services \<Rightarrow> ('w, 's) run_state \<Rightarrow> index_outcome \<times> ('w, 's) run_state" where
  "store_documents sv st =
     (case from_documents sv (store st) (documents st) QDRANT_URL COLLECTION_NAME True of
        (raised, s) \<Rightarrow>
          ((case raised of Some e \<Rightarrow> IndexRaised e | None \<Rightarrow> Indexed),
           st\<lparr>store := s,
              trace := trace st @
                [QdrantFromDocuments (documents st) QDRANT_URL COLLECTION_NAME True]\<rparr>))"

definition index_main ::
  "('w, 's, 'img) services \<Rightarrow> 'w \<Rightarrow> 's \<Rightarrow> index_outcome \<times> ('w, 's) run_state" where
  "index_main sv w s =
     (if \<not> path_exists sv PDF_PATH then
        (PdfMissing, \<lparr>documents = [], vision_state = w, store = s, trace = []\<rparr>)
      else
        (case init_models sv \<lparr>documents = [], vision_state = w, store = s, trace = []\<rparr> of
           (Some e, st1) \<Rightarrow> (InitFailed e, st1)
         | (None, st1) \<Rightarrow>
             (case partition_pdf sv PDF_PATH of
                Inl e \<Rightarrow> (PartitionFailed e, st1\<lparr>trace := trace st1 @ [PartitionPdf PDF_PATH]\<rparr>)
              | Inr elements \<Rightarrow>
                  (case process_elements sv elements
                          (st1\<lparr>trace := trace st1 @ [PartitionPdf PDF_PATH]\<rparr>) of
                     Inl (e, st2) \<Rightarrow> (IndexRaised e, st2)
                   | Inr st2 \<Rightarrow>
                       if documents st2 = [] then (NoDocuments, st2)
                       else store_documents sv st2))))"

fun is_store_call :: "event \<Rightarrow> bool" where
  "is_store_call (QdrantFromDocuments docs url name force) = True"
| "is_store_call ev = False"

section \<open>Predicates of the specification\<close>

text \<open>The element's kind name contains \<^verbatim>\<open>Table\<close>: the second branch of the loop.\<close>

definition is_table :: "element \<Rightarrow> bool" where
  "is_table el = contains ''Table'' (element_type el)"

text \<open>The element has no text, or text that is empty once stripped.\<close>

definition blank_text :: "element \<Rightarrow> bool" where
  "blank_text el = (case el_text el of None \<Rightarrow> True | Some t \<Rightarrow> strip t = [])"

definition no_image_bytes :: "element \<Rightarrow> bool" where
  "no_image_bytes el = (case el_image_bytes el of None \<Rightarrow> True | Some b \<Rightarrow> b = [])"

text \<open>The metadata carries an HTML rendering: a string that is not empty.\<close>

definition has_html :: "element \<Rightarrow> bool" where
  "has_html el = (case el_text_as_html el of None \<Rightarrow> False | Some html \<Rightarrow> html \<noteq> [])"

text \<open>A table element with the empty string as text and no HTML rendering.\<close>

definition empty_plain_table :: "element \<Rightarrow> bool" where
  "empty_plain_table el = (is_table el \<and> \<not> has_html el \<and> el_text el = Some [])"

text \<open>
  An image element with image bytes for which, in the state \<open>st\<close>, the vision model
  returns the empty string as its description.
\<close>

definition empty_summary ::
  "('w, 's, 'img) services \<Rightarrow> element \<Rightarrow> ('w, 's) run_state \<Rightarrow> bool" where
  "empty_summary sv el st =
     (element_type el = ''Image'' \<and>
      (case el_image_bytes el of
         None \<Rightarrow> False
       | Some b \<Rightarrow> b \<noteq> [] \<and> fst (summarize_try sv b st) = Inr []))"

text \<open>The vector-store calls among the calls of a run.\<close>

definition store_calls :: "('w, 's) run_state \<Rightarrow> event list" where
  "store_calls st = filter is_store_call (trace st)"

text \<open>A human or assistant message, with content its class accepts.\<close>

fun human_or_ai :: "message \<Rightarrow> bool" where
  "human_or_ai (HumanMessage c) = content_ok c"
| "human_or_ai (AIMessage c) = content_ok c"
| "human_or_ai (OtherMessage k c) = False"

text \<open>
  The turn a stored entry stands for, when its type tag is \<^verbatim>\<open>human\<close> or \<^verbatim>\<open>ai\<close>;
  \<open>recognized_turns\<close> keeps those turns of a stored array, in their order. This is the
  result the loader is compared with.
\<close>

definition turn_of :: "json \<Rightarrow> message option" where
  "turn_of entry =
     (case subscript entry ''type'' of
        Inl x \<Rightarrow> None
      | Inr t \<Rightarrow>
          (case subscript entry ''content'' of
             Inl x \<Rightarrow> None
           | Inr c \<Rightarrow>
               if t = JStr ''human'' then Some (HumanMessage c)
               else if t = JStr ''ai'' then Some (AIMessage c)
               else None))"

definition recognized_turns :: "json list \<Rightarrow> message list" where
  "recognized_turns entries = List.map_filter turn_of entries"

text \<open>
  An entry of the session file format: an object with a type tag, and with content a
  message accepts when the tag is \<^verbatim>\<open>human\<close> or \<^verbatim>\<open>ai\<close>.
\<close>

definition entry_ok :: "json \<Rightarrow> bool" where
  "entry_ok entry =
     (case subscript entry ''type'' of
        Inl x \<Rightarrow> False
      | Inr t \<Rightarrow>
          if t = JStr ''human'' \<or> t = JStr ''ai'' then
            (case subscript entry ''content'' of Inl x \<Rightarrow> False | Inr c \<Rightarrow> content_ok c)
          else True)"

section \<open>Sample inputs\<close>

definition class_repr :: "string \<Rightarrow> string" where
  "class_repr name =
     ''<class '' @ [CHR 0x27] @ ''unstructured.documents.elements.'' @ name @ [CHR 0x27] @ ''>''"

definition narrative_el :: element where
  "narrative_el =
     \<lparr>type_repr = class_repr ''NarrativeText'',
      el_text = Some ''The sum of two numbers is called addition.'',
      el_image_bytes = None,
      el_page_number = Some 1,
      el_text_as_html = None\<rparr>"

definition blank_title_el :: element where
  "blank_title_el =
     \<lparr>type_repr = class_repr ''Title'',
      el_text = Some [CHR '' '', CHR 0x09, CHR 0x0A],
      el_image_bytes = None,
      el_page_number = Some 1,
      el_text_as_html = None\<rparr>"

definition blank_table_el :: element where
  "blank_table_el =
     \<lparr>type_repr = class_repr ''Table'',
      el_text = Some [],
      el_image_bytes = None,
      el_page_number = Some 12,
      el_text_as_html = None\<rparr>"

definition html_table_el :: element where
  "html_table_el =
     \<lparr>type_repr = class_repr ''Table'',
      el_text = Some ''x y'',
      el_image_bytes = None,
      el_page_number = Some 3,
      el_text_as_html = Some ''<table><tr><td>x</td><td>y</td></tr></table>''\<rparr>"

definition png_bytes :: bytes where
  "png_bytes = [0x89, 0x50, 0x4E, 0x47]"

definition image_el :: element where
  "image_el =
     \<lparr>type_repr = class_repr ''Image'',
      el_text = Some [],
      el_image_bytes = Some png_bytes,
      el_page_number = Some 2,
      el_text_as_html = None\<rparr>"

text \<open>
  Services that all answer: the vision server counts its invocations, the vector store
  holds the documents of the last call.
\<close>

definition sample_services :: "element list \<Rightarrow> (nat, document list, bytes) services" where
  "sample_services els =
     \<lparr>path_exists = (\<lambda>p. p = PDF_PATH),
      embeddings_init = None,
      vision_init = None,
      vision_invoke = (\<lambda>n inp. (Inr ''A right triangle.'', Suc n)),
      partition_pdf = (\<lambda>p. Inr els),
      image_open = (\<lambda>b. Inr b),
      image_thumbnail = (\<lambda>img sz. Inr img),
      image_save_png = (\<lambda>img. Inr img),
      b64encode = (\<lambda>b. replicate (length b) (CHR ''A'')),
      from_documents = (\<lambda>s docs url name force. (None, docs))\<rparr>"

text \<open>The vision model answers the test prompt and fails on every image.\<close>

definition vision_down :: "element list \<Rightarrow> (nat, document list, bytes) services" where
  "vision_down els =
     (sample_services els)
       \<lparr>vision_invoke :=
          (\<lambda>n inp. case inp of
                     Prompt p \<Rightarrow> (Inr ''ok'', Suc n)
                   | Messages ms \<Rightarrow> (Inl (ServiceError ''model unavailable''), Suc n))\<rparr>"

text \<open>The vision model answers every image with the empty string.\<close>

definition vision_silent :: "element list \<Rightarrow> (nat, document list, bytes) services" where
  "vision_silent els =
     (sample_services els)\<lparr>vision_invoke := (\<lambda>n inp. (Inr [], Suc n))\<rparr>"

text \<open>No image can be decoded.\<close>

definition decoder_down :: "element list \<Rightarrow> (nat, document list, bytes) services" where
  "decoder_down els =
     (sample_services els)
       \<lparr>image_open := (\<lambda>b. Inl (ServiceError ''cannot identify image file''))\<rparr>"

text \<open>The configured PDF is not there.\<close>

definition pdf_missing :: "(nat, document list, bytes) services" where
  "pdf_missing = (sample_services [])\<lparr>path_exists := (\<lambda>p. False)\<rparr>"

definition start :: "(nat, document list) run_state" where
  "start = \<lparr>documents = [], vision_state = 0, store = [], trace = []\<rparr>"

definition old_document :: document where
  "old_document =
     \<lparr>page_content = ''Earlier run.'', md_source = PDF_PATH,
      md_page_number = Some 7, md_type = ''Title''\<rparr>"

text \<open>
  A working directory with nothing in it, and the same directory once the session
  directory has been made.
\<close>

definition fresh_fs :: fs where
  "fresh_fs =
     \<lparr>cwd = [''home'', ''user'', ''rag''],
      nodes = [[''home''] \<mapsto> Directory,
               [''home'', ''user''] \<mapsto> Directory,
               [''home'', ''user'', ''rag''] \<mapsto> Directory]\<rparr>"

definition home_fs :: fs where
  "home_fs =
     fresh_fs\<lparr>nodes := (nodes fresh_fs)
       ([''home'', ''user'', ''rag'', ''chat_sessions''] \<mapsto> Directory)\<rparr>"


definition sample_query_services :: query_services where
  "sample_query_services =
     \<lparr>connect = None,
      retrieval_chain = (\<lambda>q. Inr ''The sum of two numbers is called addition.''),
      summarizer_chain = (\<lambda>c. Inr ''Addition is a sum.''),
      answer_chain = (\<lambda>h c q. Inr (''Answer to: '' @ q))\<rparr>"

definition first_args :: args where
  "first_args =
     \<lparr>arg_question = ''What is addition?'', arg_summarize = False,
      arg_session_id = Some ''test1''\<rparr>"

definition second_args :: args where
  "second_args =
     \<lparr>arg_question = ''What is a sum?'', arg_summarize = True,
      arg_session_id = Some ''test1''\<rparr>"

definition sample_turns :: "message list" where
  "sample_turns =
     [HumanMessage (JStr ''What is addition?''),
      AIMessage (JStr ''The sum of two numbers.''),
      HumanMessage (JStr ''And subtraction?'')]"

definition mixed_entries :: "json list" where
  "mixed_entries =
     [JObj [(''type'', JStr ''human''), (''content'', JStr ''What is addition?'')],
      JObj [(''type'', JStr ''system''), (''content'', JStr ''Be brief.'')],
      JObj [(''type'', JStr ''tool'')],
      JObj [(''type'', JStr ''ai''), (''content'', JStr ''The sum of two numbers.'')],
      JObj [(''type'', JNum 7), (''content'', JNull)]]"

definition nameless_args :: args where
  "nameless_args =
     \<lparr>arg_question = ''What is addition?'', arg_summarize = False,
      arg_session_id = Some []\<rparr>"

definition nested_args :: args where
  "nested_args =
     \<lparr>arg_question = ''What is addition?'', arg_summarize = False,
      arg_session_id = Some ''a/b''\<rparr>"

definition first_result :: chain_result where
  "first_result =
     \<lparr>res_context = ''The sum of two numbers is called addition.'',
      res_summary = ''N/A'',
      res_answer = ''Answer to: What is addition?''\<rparr>"

definition second_result :: chain_result where
  "second_result =
     \<lparr>res_context = ''The sum of two numbers is called addition.'',
      res_summary = ''Addition is a sum.'',
      res_answer = ''Answer to: What is a sum?''\<rparr>"

text \<open>The file system after the first and after the second sample run.\<close>

definition after_first :: fs where
  "after_first =
     home_fs\<lparr>nodes := (nodes home_fs)
       ([''home'', ''user'', ''rag'', ''chat_sessions'', ''test1.json''] \<mapsto>
          Regular (JsonDoc (JArr (map history_dict
            [HumanMessage (JStr ''What is addition?''),
             AIMessage (JStr ''Answer to: What is addition?'')]))))\<rparr>"

definition after_second :: fs where
  "after_second =
     after_first\<lparr>nodes := (nodes after_first)
       ([''home'', ''user'', ''rag'', ''chat_sessions'', ''test1.json''] \<mapsto>
          Regular (JsonDoc (JArr (map history_dict
            [HumanMessage (JStr ''What is addition?''),
             AIMessage (JStr ''Answer to: What is addition?''),
             HumanMessage (JStr ''What is a sum?''),
             AIMessage (JStr ''Answer to: What is a sum?'')]))))\<rparr>"

text \<open>A session file with entries of several kinds.\<close>

definition mixed_fs :: fs where
  "mixed_fs =
     home_fs\<lparr>nodes := (nodes home_fs)
       ([''home'', ''user'', ''rag'', ''chat_sessions'', ''s1.json''] \<mapsto>
          Regular (JsonDoc (JArr mixed_entries)))\<rparr>"


section \<open>Paths and the file system\<close>



lemma SESSION_DIR_parts:
  "SESSION_DIR = \<lparr>path_root = [], path_parts = [''chat_sessions'']\<rparr>"
  by (simp add: SESSION_DIR_def Path_def parse_root_def parse_parts_def)



lemma walk_keeps:
  assumes "walk f cur cs = Inr l'"
    and "node_at f l \<noteq> Some Directory"
  shows "walk (f\<lparr>nodes := (nodes f)(l \<mapsto> n)\<rparr>) cur cs = Inr l'"
  using assms(1)
proof (induction cs arbitrary: cur)
  case Nil
  then show ?case by simp
next
  case (Cons c cs)
  let ?g = "f\<lparr>nodes := (nodes f)(l \<mapsto> n)\<rparr>"
  show ?case
  proof (cases "c = ''..''")
    case True
    with Cons.prems have "walk f (butlast cur) cs = Inr l'" by simp
    from Cons.IH [OF this] True show ?thesis by simp
  next
    case False
    note not_up = this
    show ?thesis
    proof (cases "cs = []")
      case True
      with not_up Cons.prems show ?thesis by (simp split: if_splits)
    next
      case False
      from not_up False Cons.prems
      have short: "\<not> 255 < utf8_length c"
        and dir: "node_at f (cur @ [c]) = Some Directory"
        and rest: "walk f (cur @ [c]) cs = Inr l'"
        by (simp_all split: if_splits option.splits node.splits)
      from dir assms(2) have "cur @ [c] \<noteq> l" by auto
      with dir have gdir: "node_at ?g (cur @ [c]) = Some Directory"
        by (simp add: node_at_def)
      have "walk ?g cur (c # cs) = walk ?g (cur @ [c]) cs"
        using not_up False short
        by (simp only: walk.simps if_False gdir option.case node.case)
      with Cons.IH [OF rest] show ?thesis by (simp only:)
    qed
  qed
qed

lemma resolve_keeps:
  assumes "resolve f p = Inr l'"
    and "node_at f l \<noteq> Some Directory"
  shows "resolve (f\<lparr>nodes := (nodes f)(l \<mapsto> n)\<rparr>) p = Inr l'"
proof -
  let ?g = "f\<lparr>nodes := (nodes f)(l \<mapsto> n)\<rparr>"
  let ?from = "if path_root p = [] then cwd f else []"
  from assms(1) have ok: "CHR 0x00 \<notin> set (path_str p)" "\<not> 4096 \<le> utf8_length (path_str p)"
    and w: "walk f ?from (path_parts p) = Inr l'"
    by (simp_all add: resolve_def split: if_splits)
  from w assms(2) have "walk ?g ?from (path_parts p) = Inr l'"
    by (rule walk_keeps)
  moreover have "cwd ?g = cwd f" by simp
  ultimately show ?thesis
    using ok by (simp only: resolve_def if_False)
qed

lemma open_w_result:
  assumes "open_w f p d = Inr f'"
  shows "\<exists>l. resolve f p = Inr l \<and> node_at f l \<noteq> Some Directory \<and> l \<noteq> [] \<and>
             f' = f\<lparr>nodes := (nodes f)(l \<mapsto> Regular d)\<rparr>"
proof (cases "resolve f p")
  case (Inl e)
  with assms show ?thesis by (simp add: open_w_def)
next
  case (Inr l)
  with assms have nd: "node_at f l \<noteq> Some Directory"
    by (auto simp: open_w_def)
  then have ne: "l \<noteq> []" by (auto simp: node_at_def)
  from Inr assms nd have "f' = f\<lparr>nodes := (nodes f)(l \<mapsto> Regular d)\<rparr>"
    by (cases "node_at f l") (auto simp: open_w_def split: node.splits)
  with Inr nd ne show ?thesis by blast
qed

lemma open_w_then_read:
  assumes "open_w f p d = Inr f'"
  shows "Path_exists f' p = Inr True \<and> open_r f' p = Inr d"
proof -
  from open_w_result [OF assms] obtain l where
    r: "resolve f p = Inr l" and nd: "node_at f l \<noteq> Some Directory" and ne: "l \<noteq> []"
    and f': "f' = f\<lparr>nodes := (nodes f)(l \<mapsto> Regular d)\<rparr>"
    by blast
  have "resolve f' p = Inr l"
    unfolding f' using r nd by (rule resolve_keeps)
  moreover have "node_at f' l = Some (Regular d)"
    using ne by (simp add: f' node_at_def)
  ultimately show ?thesis
    by (simp add: Path_exists_def stat_def open_r_def)
qed

lemma open_r_exists:
  assumes "open_r f p = Inr d"
  shows "Path_exists f p = Inr True"
proof (cases "resolve f p")
  case (Inl e)
  with assms show ?thesis by (simp add: open_r_def)
next
  case (Inr l)
  with assms have "node_at f l = Some (Regular d)"
    by (cases "node_at f l") (auto simp: open_r_def split: node.splits)
  with Inr show ?thesis by (simp add: Path_exists_def stat_def)
qed

lemma sample_session_files:
  "session_file ''test1'' = \<lparr>path_root = [], path_parts = [''chat_sessions'', ''test1.json'']\<rparr>"
  "session_file ''s1'' = \<lparr>path_root = [], path_parts = [''chat_sessions'', ''s1.json'']\<rparr>"
  "session_file ''nobody'' = \<lparr>path_root = [], path_parts = [''chat_sessions'', ''nobody.json'']\<rparr>"
  "session_file ''a/b'' = \<lparr>path_root = [], path_parts = [''chat_sessions'', ''a'', ''b.json'']\<rparr>"
  by (simp_all add: session_file_def joinpath_def SESSION_DIR_parts parse_parts_def parse_root_def)


lemma utf8_length_Nil: "utf8_length [] = 0"
  by (simp add: utf8_length_def)

lemma utf8_length_Cons:
  "utf8_length (c # cs) = (if 128 \<le> (of_char c :: nat) then 2 else 1) + utf8_length cs"
  by (simp add: utf8_length_def)




section \<open>Conversational memory: loading and saving\<close>

lemma load_messages_history_dicts:
  "\<forall>m\<in>set turns. human_or_ai m \<Longrightarrow>
   load_messages (map history_dict turns) acc = Inr (acc @ turns)"
proof (induction turns arbitrary: acc)
  case Nil
  then show ?case by simp
next
  case (Cons m turns)
  then have ok: "human_or_ai m" and rest: "\<forall>m\<in>set turns. human_or_ai m" by simp_all
  show ?case
  proof (cases m)
    case (HumanMessage c)
    with ok Cons.IH [OF rest] show ?thesis
      by (simp add: history_dict_def new_HumanMessage_def)
  next
    case (AIMessage c)
    with ok Cons.IH [OF rest] show ?thesis
      by (simp add: history_dict_def new_AIMessage_def)
  next
    case (OtherMessage k c)
    with ok show ?thesis by simp
  qed
qed

lemma load_stored_array:
  assumes "open_r f (session_file sid) = Inr (JsonDoc (JArr entries))"
  shows "load_memory f sid = load_messages entries []"
  using assms open_r_exists [OF assms]
  by (simp add: load_memory_def)

lemma load_after_save:
  assumes "\<forall>m\<in>set turns. human_or_ai m"
    and "save_memory f sid turns = Inr f'"
  shows "load_memory f' sid = Inr turns"
proof -
  from assms(2) have "open_r f' (session_file sid) = Inr (JsonDoc (JArr (map history_dict turns)))"
    unfolding save_memory_def by (rule open_w_then_read [THEN conjunct2])
  then have "load_memory f' sid = load_messages (map history_dict turns) []"
    by (rule load_stored_array)
  with load_messages_history_dicts [OF assms(1), of "[]"] show ?thesis by simp
qed

lemma load_messages_human_or_ai:
  "load_messages entries acc = Inr ms \<Longrightarrow> \<forall>m\<in>set acc. human_or_ai m \<Longrightarrow>
   \<forall>m\<in>set ms. human_or_ai m"
proof (induction entries arbitrary: acc)
  case Nil
  then show ?case by simp
next
  case (Cons e entries)
  from Cons.prems show ?case
    by (auto simp: new_HumanMessage_def new_AIMessage_def
        split: sum.splits if_splits dest!: Cons.IH)
qed

lemma load_memory_human_or_ai:
  assumes "load_memory f sid = Inr ms"
  shows "\<forall>m\<in>set ms. human_or_ai m"
proof (cases "Path_exists f (session_file sid)")
  case (Inl e)
  with assms show ?thesis by (simp add: load_memory_def)
next
  case (Inr there)
  show ?thesis
  proof (cases there)
    case False
    with Inr assms show ?thesis by (simp add: load_memory_def)
  next
    case True
    show ?thesis
    proof (cases "open_r f (session_file sid)")
      case (Inl e)
      with Inr True assms show ?thesis by (simp add: load_memory_def)
    next
      case (Inr d)
      note read = this
      show ?thesis
      proof (cases d)
        case (NotJson other)
        with read \<open>Path_exists f (session_file sid) = Inr there\<close> True assms
        show ?thesis by (simp add: load_memory_def)
      next
        case (JsonDoc j)
        show ?thesis
        proof (cases "iterate j")
          case (Inl e)
          with JsonDoc read \<open>Path_exists f (session_file sid) = Inr there\<close> True assms
          show ?thesis by (simp add: load_memory_def)
        next
          case (Inr entries)
          with JsonDoc read \<open>Path_exists f (session_file sid) = Inr there\<close> True assms
          have "load_messages entries [] = Inr ms" by (simp add: load_memory_def)
          from load_messages_human_or_ai [OF this] show ?thesis by simp
        qed
      qed
    qed
  qed
qed

lemma load_messages_recognized:
  "\<forall>e\<in>set entries. entry_ok e \<Longrightarrow>
   load_messages entries acc = Inr (acc @ recognized_turns entries)"
proof (induction entries arbitrary: acc)
  case Nil
  then show ?case by (simp add: recognized_turns_def map_filter_simps)
next
  case (Cons e entries)
  then have ok: "entry_ok e" and rest: "\<forall>e\<in>set entries. entry_ok e" by simp_all
  from ok Cons.IH [OF rest] show ?case
    by (auto simp: entry_ok_def turn_of_def recognized_turns_def map_filter_simps
        new_HumanMessage_def new_AIMessage_def split: sum.splits if_splits)
qed

lemma home_paths:
  "resolve home_fs (session_file ''test1'') =
     Inr [''home'', ''user'', ''rag'', ''chat_sessions'', ''test1.json'']"
  "resolve home_fs (session_file ''nobody'') =
     Inr [''home'', ''user'', ''rag'', ''chat_sessions'', ''nobody.json'']"
  "resolve home_fs (session_file ''a/b'') = Inl FileNotFoundError"
  by (simp_all add: sample_session_files resolve_def path_str_def utf8_length_def node_at_def
      home_fs_def fresh_fs_def)

text \<open>
  Claim C4, as stated, fails: for the session id \<^verbatim>\<open>a/b\<close> the session file lies in a
  directory that does not exist, so \<^verbatim>\<open>save_memory\<close> raises
  \<^verbatim>\<open>FileNotFoundError\<close>, nothing is written, and loading the session afterwards
  returns the empty sequence instead of the turns.
\<close>

theorem save_raises_for_nested_id:
  "list_all human_or_ai sample_turns \<and>
   save_memory home_fs ''a/b'' sample_turns = Inl FileNotFoundError \<and>
   load_memory home_fs ''a/b'' = Inr []"
  by (simp add: sample_turns_def save_memory_def open_w_def load_memory_def Path_exists_def
      stat_def home_paths)

text \<open>
  Claim C4, amended. For every session id and every sequence of human and assistant
  messages for which \<^verbatim>\<open>save_memory\<close> returns without raising, loading the session
  afterwards returns the same sequence: the same order, the same roles and the same
  contents.
\<close>

theorem save_then_load_roundtrip:
  assumes "\<forall>m\<in>set turns. human_or_ai m"
    and "save_memory f sid turns = Inr f'"
  shows "load_memory f' sid = Inr turns"
  using assms by (rule load_after_save)

theorem save_then_load_roundtrip_witness:
  "list_all human_or_ai sample_turns \<and>
   save_memory home_fs ''test1'' sample_turns =
     Inr (home_fs\<lparr>nodes := (nodes home_fs)
            ([''home'', ''user'', ''rag'', ''chat_sessions'', ''test1.json''] \<mapsto>
               Regular (JsonDoc (JArr (map history_dict sample_turns))))\<rparr>) \<and>
   load_memory
     (home_fs\<lparr>nodes := (nodes home_fs)
        ([''home'', ''user'', ''rag'', ''chat_sessions'', ''test1.json''] \<mapsto>
           Regular (JsonDoc (JArr (map history_dict sample_turns))))\<rparr>) ''test1'' =
     Inr sample_turns"
proof -
  have h: "\<forall>m\<in>set sample_turns. human_or_ai m"
    by (simp add: sample_turns_def)
  have w: "save_memory home_fs ''test1'' sample_turns =
     Inr (home_fs\<lparr>nodes := (nodes home_fs)
            ([''home'', ''user'', ''rag'', ''chat_sessions'', ''test1.json''] \<mapsto>
               Regular (JsonDoc (JArr (map history_dict sample_turns))))\<rparr>)"
    by (simp add: save_memory_def open_w_def home_paths)
      (simp add: node_at_def home_fs_def fresh_fs_def)
  from h w save_then_load_roundtrip [OF h w] show ?thesis
    by (simp add: list_all_iff)
qed




text \<open>
  Claim C10. When the session file holds an array of entries in the session file
  format, the loader raises nothing and returns the turns of the entries tagged
  \<^verbatim>\<open>human\<close> or \<^verbatim>\<open>ai\<close>, in their order; entries with any other tag are skipped.
\<close>

theorem load_skips_other_tags:
  assumes "open_r f (session_file sid) = Inr (JsonDoc (JArr entries))"
    and "\<forall>e\<in>set entries. entry_ok e"
  shows "load_memory f sid = Inr (recognized_turns entries)"
  using load_stored_array [OF assms(1)] load_messages_recognized [OF assms(2), of "[]"]
  by simp

theorem load_skips_other_tags_witness:
  "open_r mixed_fs (session_file ''s1'') = Inr (JsonDoc (JArr mixed_entries)) \<and>
   list_all entry_ok mixed_entries \<and>
   load_memory mixed_fs ''s1'' =
     Inr [HumanMessage (JStr ''What is addition?''), AIMessage (JStr ''The sum of two numbers.'')]"
proof -
  have r: "open_r mixed_fs (session_file ''s1'') = Inr (JsonDoc (JArr mixed_entries))"
    by (simp add: open_r_def resolve_def sample_session_files path_str_def utf8_length_def
        node_at_def mixed_fs_def home_fs_def fresh_fs_def)
  have ok: "\<forall>e\<in>set mixed_entries. entry_ok e"
    by (simp add: mixed_entries_def entry_ok_def)
  have t: "recognized_turns mixed_entries =
      [HumanMessage (JStr ''What is addition?''), AIMessage (JStr ''The sum of two numbers.'')]"
    by (simp add: mixed_entries_def recognized_turns_def turn_of_def map_filter_simps)
  from r ok t load_skips_other_tags [OF r ok] show ?thesis
    by (simp add: list_all_iff)
qed

section \<open>The query run\<close>

lemma query_main_answered:
  assumes "query_main sv a f = (Answered r, f')"
    and "session_of a = Some sid"
    and "load_memory f sid = Inr history"
  shows "save_memory f sid
           (history @ [HumanMessage (JStr (arg_question a)), AIMessage (JStr (res_answer r))])
         = Inr f'"
proof (cases "connect sv")
  case (Some e)
  with assms(1) show ?thesis by (simp add: query_main_def)
next
  case None
  show ?thesis
  proof (cases "full_rag_chain sv a history")
    case (Inl e)
    with None assms show ?thesis by (simp add: query_main_def)
  next
    case (Inr result)
    let ?turns = "history @
      [HumanMessage (JStr (arg_question a)), AIMessage (JStr (res_answer result))]"
    show ?thesis
    proof (cases "save_memory f sid ?turns")
      case (Inl e)
      with None Inr assms show ?thesis by (simp add: query_main_def)
    next
      case (Inr g)
      with None \<open>full_rag_chain sv a history = Inr result\<close> assms
      have "result = r \<and> g = f'" by (simp add: query_main_def)
      with Inr show ?thesis by simp
    qed
  qed
qed

lemma sample_session_dirs:
  "make_session_dir fresh_fs = Inr home_fs"
  "make_session_dir home_fs = Inr home_fs"
  "make_session_dir after_first = Inr after_first"
  by (simp_all add: make_session_dir_def Path_mkdir_def resolve_def SESSION_DIR_parts
      path_str_def utf8_length_Cons utf8_length_Nil node_at_def after_first_def home_fs_def
      fresh_fs_def)

lemma after_first_path:
  "resolve after_first (session_file ''test1'') =
     Inr [''home'', ''user'', ''rag'', ''chat_sessions'', ''test1.json'']"
  by (simp add: sample_session_files resolve_def path_str_def utf8_length_Cons utf8_length_Nil
      node_at_def after_first_def home_fs_def fresh_fs_def)

lemma sample_sessions:
  "session_of first_args = Some ''test1''"
  "session_of second_args = Some ''test1''"
  "session_of nested_args = Some ''a/b''"
  "session_of nameless_args = None"
  by (simp_all add: session_of_def first_args_def second_args_def nested_args_def
      nameless_args_def)

lemma sample_chain:
  "connect sample_query_services = None"
  "full_rag_chain sample_query_services first_args h = Inr first_result"
  "full_rag_chain sample_query_services second_args h = Inr second_result"
  "full_rag_chain sample_query_services nested_args h = Inr first_result"
  "full_rag_chain sample_query_services nameless_args h = Inr first_result"
  by (simp_all add: full_rag_chain_def sample_query_services_def first_args_def second_args_def
      nested_args_def nameless_args_def first_result_def second_result_def)

lemma home_loads:
  "load_memory home_fs ''test1'' = Inr []"
  "load_memory home_fs ''a/b'' = Inr []"
  by (simp_all add: load_memory_def Path_exists_def stat_def home_paths)
    (simp add: node_at_def home_fs_def fresh_fs_def)

lemma first_run:
  "query_main sample_query_services first_args home_fs = (Answered first_result, after_first)"
proof -
  have "save_memory home_fs ''test1''
      ([] @ [HumanMessage (JStr (arg_question first_args)),
             AIMessage (JStr (res_answer first_result))]) = Inr after_first"
    by (simp add: save_memory_def open_w_def home_paths)
      (simp add: node_at_def after_first_def first_args_def first_result_def home_fs_def
        fresh_fs_def)
  then show ?thesis
    by (simp add: query_main_def sample_chain sample_sessions home_loads)
qed

lemma first_history:
  "load_memory after_first ''test1'' =
     Inr [HumanMessage (JStr ''What is addition?''),
          AIMessage (JStr ''Answer to: What is addition?'')]"
proof -
  have "open_r after_first (session_file ''test1'') =
      Inr (JsonDoc (JArr (map history_dict
        [HumanMessage (JStr ''What is addition?''),
         AIMessage (JStr ''Answer to: What is addition?'')])))"
    by (simp add: open_r_def after_first_path) (simp add: node_at_def after_first_def)
  from load_stored_array [OF this] show ?thesis
    by (simp add: history_dict_def new_HumanMessage_def new_AIMessage_def)
qed

lemma second_run:
  "query_main sample_query_services second_args after_first =
     (Answered second_result, after_second)"
proof -
  have "save_memory after_first ''test1''
      ([HumanMessage (JStr ''What is addition?''),
        AIMessage (JStr ''Answer to: What is addition?'')] @
       [HumanMessage (JStr (arg_question second_args)),
        AIMessage (JStr (res_answer second_result))]) = Inr after_second"
    by (simp add: save_memory_def open_w_def after_first_path)
      (simp add: node_at_def after_second_def after_first_def second_args_def
        second_result_def)
  then show ?thesis
    by (simp add: query_main_def sample_chain sample_sessions first_history)
qed

text \<open>
  Claim C6, as stated, fails: a query run given the session id \<^verbatim>\<open>a/b\<close> produces
  its answer and then raises \<^verbatim>\<open>FileNotFoundError\<close> while saving, so no session file is
  written; and a run given the empty string as session id answers and saves nothing.
\<close>

theorem run_without_rewrite:
  "query_script sample_query_services nested_args fresh_fs =
     (QueryRaised FileNotFoundError, home_fs) \<and>
   Path_exists home_fs (session_file ''a/b'') = Inr False \<and>
   arg_session_id nameless_args = Some [] \<and>
   query_script sample_query_services nameless_args fresh_fs = (Answered first_result, home_fs)"
proof -
  have "save_memory home_fs ''a/b''
      ([] @ [HumanMessage (JStr (arg_question nested_args)),
             AIMessage (JStr (res_answer first_result))]) = Inl FileNotFoundError"
    by (simp add: save_memory_def open_w_def home_paths)
  then have "query_main sample_query_services nested_args home_fs =
      (QueryRaised FileNotFoundError, home_fs)"
    by (simp add: query_main_def sample_chain sample_sessions home_loads)
  moreover have "query_main sample_query_services nameless_args home_fs =
      (Answered first_result, home_fs)"
    by (simp add: query_main_def sample_chain sample_sessions)
  moreover have "Path_exists home_fs (session_file ''a/b'') = Inr False"
    by (simp add: Path_exists_def stat_def home_paths)
  ultimately show ?thesis
    by (simp add: query_script_def sample_session_dirs nameless_args_def)
qed

text \<open>
  Claim C6, amended. For every run of \<^verbatim>\<open>main\<close> given a session id that is not the
  empty string, if the run ends without an error then it replaces the session file, and
  nothing else, by the history it loaded followed by a human turn with the question and an
  assistant turn with the answer. After two such runs with the same session id the file
  holds the first history followed by the four new turns in the order they were made; when
  there was no session file before the first run, these four turns are all it holds.
\<close>

theorem query_appends_question_and_answer:
  assumes "query_main sva a f = (Answered ra, fa)"
    and "query_main svb b fa = (Answered rb, fb)"
    and "session_of a = Some sid"
    and "session_of b = Some sid"
    and "load_memory f sid = Inr history"
  shows "(\<exists>l. resolve f (session_file sid) = Inr l
            \<and> fa = f\<lparr>nodes := (nodes f)(l \<mapsto> Regular (JsonDoc (JArr (map history_dict
                 (history @ [HumanMessage (JStr (arg_question a)),
                             AIMessage (JStr (res_answer ra))])))))\<rparr>
            \<and> fb = fa\<lparr>nodes := (nodes fa)(l \<mapsto> Regular (JsonDoc (JArr (map history_dict
                 (history @ [HumanMessage (JStr (arg_question a)),
                             AIMessage (JStr (res_answer ra)),
                             HumanMessage (JStr (arg_question b)),
                             AIMessage (JStr (res_answer rb))])))))\<rparr>)
       \<and> open_r fb (session_file sid) =
           Inr (JsonDoc (JArr (map history_dict
             (history @ [HumanMessage (JStr (arg_question a)), AIMessage (JStr (res_answer ra)),
                         HumanMessage (JStr (arg_question b)), AIMessage (JStr (res_answer rb))]))))
       \<and> load_memory fb sid =
           Inr (history @ [HumanMessage (JStr (arg_question a)), AIMessage (JStr (res_answer ra)),
                           HumanMessage (JStr (arg_question b)), AIMessage (JStr (res_answer rb))])
       \<and> (Path_exists f (session_file sid) = Inr False \<longrightarrow>
            load_memory fb sid =
              Inr [HumanMessage (JStr (arg_question a)), AIMessage (JStr (res_answer ra)),
                   HumanMessage (JStr (arg_question b)), AIMessage (JStr (res_answer rb))])"
proof -
  let ?ta = "[HumanMessage (JStr (arg_question a)), AIMessage (JStr (res_answer ra))]"
  let ?tb = "[HumanMessage (JStr (arg_question b)), AIMessage (JStr (res_answer rb))]"
  let ?da = "JsonDoc (JArr (map history_dict (history @ ?ta)))"
  let ?db = "JsonDoc (JArr (map history_dict ((history @ ?ta) @ ?tb)))"
  have sa: "save_memory f sid (history @ ?ta) = Inr fa"
    using assms(1,3,5) by (rule query_main_answered)
  have ok: "\<forall>m\<in>set (history @ ?ta). human_or_ai m"
    using load_memory_human_or_ai [OF assms(5)] by simp
  have la: "load_memory fa sid = Inr (history @ ?ta)"
    using ok sa by (rule load_after_save)
  have sb: "save_memory fa sid ((history @ ?ta) @ ?tb) = Inr fb"
    using assms(2,4) la by (rule query_main_answered)
  have ok2: "\<forall>m\<in>set ((history @ ?ta) @ ?tb). human_or_ai m"
    using ok by simp
  have lb: "load_memory fb sid = Inr ((history @ ?ta) @ ?tb)"
    using ok2 sb by (rule load_after_save)
  from sa obtain l where
    r: "resolve f (session_file sid) = Inr l" and nd: "node_at f l \<noteq> Some Directory"
    and fa: "fa = f\<lparr>nodes := (nodes f)(l \<mapsto> Regular ?da)\<rparr>"
    unfolding save_memory_def by (blast dest: open_w_result)
  have ra: "resolve fa (session_file sid) = Inr l"
    unfolding fa using r nd by (rule resolve_keeps)
  from sb obtain l' where
    "resolve fa (session_file sid) = Inr l'"
    and "fb = fa\<lparr>nodes := (nodes fa)(l' \<mapsto> Regular ?db)\<rparr>"
    unfolding save_memory_def by (blast dest: open_w_result)
  with ra have fb: "fb = fa\<lparr>nodes := (nodes fa)(l \<mapsto> Regular ?db)\<rparr>" by simp
  have rd: "open_r fb (session_file sid) = Inr ?db"
    using sb unfolding save_memory_def by (rule open_w_then_read [THEN conjunct2])
  have empty: "Path_exists f (session_file sid) = Inr False \<Longrightarrow> history = []"
    using assms(5) by (simp add: load_memory_def)
  from r fa fb have "\<exists>l. resolve f (session_file sid) = Inr l
      \<and> fa = f\<lparr>nodes := (nodes f)(l \<mapsto> Regular ?da)\<rparr>
      \<and> fb = fa\<lparr>nodes := (nodes fa)(l \<mapsto> Regular ?db)\<rparr>"
    by blast
  with rd lb empty show ?thesis by simp
qed

theorem query_appends_question_and_answer_witness:
  "query_script sample_query_services first_args fresh_fs = (Answered first_result, after_first) \<and>
   query_script sample_query_services second_args after_first =
     (Answered second_result, after_second) \<and>
   load_memory after_second ''test1'' =
     Inr [HumanMessage (JStr ''What is addition?''),
          AIMessage (JStr ''Answer to: What is addition?''),
          HumanMessage (JStr ''What is a sum?''),
          AIMessage (JStr ''Answer to: What is a sum?'')]"
proof -
  have none: "Path_exists home_fs (session_file ''test1'') = Inr False"
    by (simp add: Path_exists_def stat_def home_paths)
      (simp add: node_at_def home_fs_def fresh_fs_def)
  have q: "arg_question first_args = ''What is addition?''"
    "arg_question second_args = ''What is a sum?''"
    "res_answer first_result = ''Answer to: What is addition?''"
    "res_answer second_result = ''Answer to: What is a sum?''"
    by (simp_all add: first_args_def second_args_def first_result_def second_result_def)
  note both = query_appends_question_and_answer
    [OF first_run second_run sample_sessions(1) sample_sessions(2) home_loads(1)]
  from both [THEN conjunct2, THEN conjunct2, THEN conjunct2, THEN mp, OF none]
  have "load_memory after_second ''test1'' =
     Inr [HumanMessage (JStr ''What is addition?''),
          AIMessage (JStr ''Answer to: What is addition?''),
          HumanMessage (JStr ''What is a sum?''),
          AIMessage (JStr ''Answer to: What is a sum?'')]"
    by (simp add: q)
  with first_run second_run show ?thesis
    by (simp add: query_script_def sample_session_dirs)
qed

section \<open>Image summaries\<close>

lemma summarize_try_keeps:
  assumes "summarize_try sv b st = (r, st')"
  shows "documents st' = documents st \<and> store st' = store st \<and> store_calls st' = store_calls st"
  using assms
  by (auto simp: summarize_try_def store_calls_def split: sum.splits prod.splits)

lemma summarize_image_keeps:
  assumes "summarize_image sv b st = (r, st')"
  shows "documents st' = documents st \<and> store st' = store st \<and> store_calls st' = store_calls st"
proof -
  obtain r0 st0 where t: "summarize_try sv b st = (r0, st0)"
    by (cases "summarize_try sv b st")
  with assms have "st' = st0"
    by (auto simp: summarize_image_def split: sum.splits)
  with summarize_try_keeps [OF t] show ?thesis by simp
qed

lemma summarize_try_calls:
  "fst (summarize_try sv b st) =
     (case image_open sv b of
        Inl e \<Rightarrow> Inl e
      | Inr pil_image \<Rightarrow>
          (case image_thumbnail sv pil_image (1024, 1024) of
             Inl e \<Rightarrow> Inl e
           | Inr small \<Rightarrow>
               (case image_save_png sv small of
                  Inl e \<Rightarrow> Inl e
                | Inr png \<Rightarrow>
                    fst (vision_invoke sv (vision_state st)
                           (Messages [vision_message (b64encode sv png)])))))"
  by (auto simp: summarize_try_def encode_image_to_base64_def split: sum.splits prod.splits)

lemma summarize_image_result:
  "fst (summarize_image sv b st) =
     Inr (case fst (summarize_try sv b st) of
            Inl e \<Rightarrow> ''Failed to summarize image''
          | Inr description \<Rightarrow> description)"
  by (auto simp: summarize_image_def split: sum.splits prod.splits)

text \<open>
  Claim C3. For every byte string and every behaviour of the decoder and of the vision
  model, \<^verbatim>\<open>summarize_image\<close> raises nothing. It returns the model's description when
  decoding, resizing, encoding and the invocation all succeed, and the fixed string
  \<^verbatim>\<open>Failed to summarize image\<close> when any of the four raises.
\<close>

theorem summarize_image_never_raises:
  "(\<exists>d. fst (summarize_image sv b st) = Inr d)
   \<and> (\<forall>pil_image small png d w.
          image_open sv b = Inr pil_image
          \<and> image_thumbnail sv pil_image (1024, 1024) = Inr small
          \<and> image_save_png sv small = Inr png
          \<and> vision_invoke sv (vision_state st) (Messages [vision_message (b64encode sv png)])
              = (Inr d, w)
          \<longrightarrow> fst (summarize_image sv b st) = Inr d)
   \<and> (\<forall>e. (image_open sv b = Inl e
             \<or> (\<exists>pil_image. image_open sv b = Inr pil_image
                   \<and> image_thumbnail sv pil_image (1024, 1024) = Inl e)
             \<or> (\<exists>pil_image small. image_open sv b = Inr pil_image
                   \<and> image_thumbnail sv pil_image (1024, 1024) = Inr small
                   \<and> image_save_png sv small = Inl e)
             \<or> (\<exists>pil_image small png w. image_open sv b = Inr pil_image
                   \<and> image_thumbnail sv pil_image (1024, 1024) = Inr small
                   \<and> image_save_png sv small = Inr png
                   \<and> vision_invoke sv (vision_state st)
                        (Messages [vision_message (b64encode sv png)]) = (Inl e, w)))
          \<longrightarrow> fst (summarize_image sv b st) = Inr ''Failed to summarize image'')"
proof (intro conjI allI impI)
  show "\<exists>d. fst (summarize_image sv b st) = Inr d"
    by (simp add: summarize_image_result)
next
  fix pil_image small png d w
  assume "image_open sv b = Inr pil_image
          \<and> image_thumbnail sv pil_image (1024, 1024) = Inr small
          \<and> image_save_png sv small = Inr png
          \<and> vision_invoke sv (vision_state st) (Messages [vision_message (b64encode sv png)])
              = (Inr d, w)"
  then have "fst (summarize_try sv b st) = Inr d"
    by (simp add: summarize_try_calls)
  then show "fst (summarize_image sv b st) = Inr d"
    by (simp add: summarize_image_result)
next
  fix e
  assume "image_open sv b = Inl e
             \<or> (\<exists>pil_image. image_open sv b = Inr pil_image
                   \<and> image_thumbnail sv pil_image (1024, 1024) = Inl e)
             \<or> (\<exists>pil_image small. image_open sv b = Inr pil_image
                   \<and> image_thumbnail sv pil_image (1024, 1024) = Inr small
                   \<and> image_save_png sv small = Inl e)
             \<or> (\<exists>pil_image small png w. image_open sv b = Inr pil_image
                   \<and> image_thumbnail sv pil_image (1024, 1024) = Inr small
                   \<and> image_save_png sv small = Inr png
                   \<and> vision_invoke sv (vision_state st)
                        (Messages [vision_message (b64encode sv png)]) = (Inl e, w))"
  then have "fst (summarize_try sv b st) = Inl e"
    by (auto simp: summarize_try_calls)
  then show "fst (summarize_image sv b st) = Inr ''Failed to summarize image''"
    by (simp add: summarize_image_result)
qed

theorem summarize_image_never_raises_witness:
  "fst (summarize_image (sample_services []) png_bytes start) = Inr ''A right triangle.''
   \<and> image_open (decoder_down []) png_bytes = Inl (ServiceError ''cannot identify image file'')
   \<and> fst (summarize_image (decoder_down []) png_bytes start) = Inr ''Failed to summarize image''
   \<and> vision_invoke (vision_down []) (vision_state start)
        (Messages [vision_message (b64encode (vision_down []) png_bytes)])
       = (Inl (ServiceError ''model unavailable''), 1)
   \<and> fst (summarize_image (vision_down []) png_bytes start) = Inr ''Failed to summarize image''"
proof -
  have ok: "image_open (sample_services []) png_bytes = Inr png_bytes
      \<and> image_thumbnail (sample_services []) png_bytes (1024, 1024) = Inr png_bytes
      \<and> image_save_png (sample_services []) png_bytes = Inr png_bytes
      \<and> vision_invoke (sample_services []) (vision_state start)
           (Messages [vision_message (b64encode (sample_services []) png_bytes)])
          = (Inr ''A right triangle.'', 1)"
    by (simp add: sample_services_def start_def)
  have dec: "image_open (decoder_down []) png_bytes = Inl (ServiceError ''cannot identify image file'')"
    by (simp add: decoder_down_def sample_services_def)
  have pre: "image_open (vision_down []) png_bytes = Inr png_bytes
      \<and> image_thumbnail (vision_down []) png_bytes (1024, 1024) = Inr png_bytes
      \<and> image_save_png (vision_down []) png_bytes = Inr png_bytes"
    by (simp add: vision_down_def sample_services_def)
  have inv: "vision_invoke (vision_down []) (vision_state start)
        (Messages [vision_message (b64encode (vision_down []) png_bytes)])
       = (Inl (ServiceError ''model unavailable''), 1)"
    by (simp add: vision_down_def start_def)
  have a: "fst (summarize_image (sample_services []) png_bytes start) = Inr ''A right triangle.''"
    using summarize_image_never_raises [of "sample_services []" png_bytes start] ok by blast
  have b: "fst (summarize_image (decoder_down []) png_bytes start) = Inr ''Failed to summarize image''"
    using summarize_image_never_raises [of "decoder_down []" png_bytes start] dec by blast
  have c: "fst (summarize_image (vision_down []) png_bytes start) = Inr ''Failed to summarize image''"
    using summarize_image_never_raises [of "vision_down []" png_bytes start] pre inv by blast
  from a b c dec inv show ?thesis by blast
qed

section \<open>The loop over the elements\<close>

lemma starts_with_self: "starts_with s s"
  by (induction s) simp_all

lemma contains_self: "contains sub sub"
  by (cases sub) (simp_all add: starts_with_self)

lemma contains_append: "contains sub (pre @ sub)"
  by (induction pre) (simp_all add: contains_self)

lemma table_not_image: "is_table el \<Longrightarrow> element_type el \<noteq> ''Image''"
  by (auto simp: is_table_def)

lemma sample_element_types:
  "element_type narrative_el = ''NarrativeText''"
  "element_type blank_title_el = ''Title''"
  "element_type blank_table_el = ''Table''"
  "element_type html_table_el = ''Table''"
  "element_type image_el = ''Image''"
  by (simp_all add: element_type_def class_repr_def remove_char_def narrative_el_def
      blank_title_el_def blank_table_el_def html_table_el_def image_el_def)

lemma sample_fields:
  "el_text narrative_el = Some ''The sum of two numbers is called addition.''"
  "el_image_bytes narrative_el = None"
  "el_page_number narrative_el = Some 1"
  "el_text_as_html narrative_el = None"
  "el_text blank_title_el = Some [CHR '' '', CHR 0x09, CHR 0x0A]"
  "el_image_bytes blank_title_el = None"
  "el_page_number blank_title_el = Some 1"
  "el_text_as_html blank_title_el = None"
  "el_text blank_table_el = Some []"
  "el_image_bytes blank_table_el = None"
  "el_page_number blank_table_el = Some 12"
  "el_text_as_html blank_table_el = None"
  "el_text html_table_el = Some ''x y''"
  "el_image_bytes html_table_el = None"
  "el_page_number html_table_el = Some 3"
  "el_text_as_html html_table_el = Some ''<table><tr><td>x</td><td>y</td></tr></table>''"
  "el_text image_el = Some []"
  "el_image_bytes image_el = Some png_bytes"
  "el_page_number image_el = Some 2"
  "el_text_as_html image_el = None"
  by (simp_all add: narrative_el_def blank_title_el_def blank_table_el_def html_table_el_def
      image_el_def)

lemma sample_summary_fails:
  "summarize_try (vision_down els) png_bytes start =
     (Inl (ServiceError ''model unavailable''),
      \<lparr>documents = [], vision_state = 1, store = [],
       trace = [VisionInvoke (Messages [vision_message ''AAAA''])]\<rparr>)"
  by (simp add: summarize_try_def encode_image_to_base64_def vision_down_def
      sample_services_def start_def png_bytes_def)

lemma strip_Nil: "strip [] = []"
  by (simp add: strip_def)

lemma process_element_record:
  assumes "process_element sv el st = Inr st'"
  shows "documents st' = documents st
       \<or> (\<exists>d. documents st' = documents st @ [d]
              \<and> (page_content d = [] \<longleftrightarrow> empty_plain_table el \<or> empty_summary sv el st))"
proof (cases "element_type el = ''Image''")
  case True
  then have nt: "\<not> is_table el" by (auto simp: is_table_def)
  show ?thesis
  proof (cases "el_image_bytes el")
    case None
    with True assms show ?thesis by (simp add: process_element_def)
  next
    case (Some b)
    show ?thesis
    proof (cases "b = []")
      case True
      with Some \<open>element_type el = ''Image''\<close> assms show ?thesis
        by (simp add: process_element_def)
    next
      case False
      obtain r st1 where t: "summarize_try sv b st = (r, st1)"
        by (cases "summarize_try sv b st")
      from summarize_try_keeps [OF t] have keep: "documents st1 = documents st" by simp
      let ?summary = "case r of Inl e \<Rightarrow> ''Failed to summarize image'' | Inr d \<Rightarrow> d"
      from True Some False t assms
      have "st' = st1\<lparr>documents := documents st1 @
              [\<lparr>page_content = ?summary, md_source = PDF_PATH,
                md_page_number = el_page_number el, md_type = ''image_summary''\<rparr>]\<rparr>"
        by (cases r) (auto simp: process_element_def summarize_image_def)
      moreover have "?summary = [] \<longleftrightarrow> empty_plain_table el \<or> empty_summary sv el st"
        using True Some False t nt
        by (cases r) (auto simp: empty_plain_table_def empty_summary_def)
      ultimately show ?thesis using keep by simp
    qed
  qed
next
  case False
  note not_image = this
  show ?thesis
  proof (cases "is_table el")
    case True
    then have tab: "contains ''Table'' (element_type el)" by (simp add: is_table_def)
    show ?thesis
    proof (cases "has_html el")
      case True
      then obtain html where h: "el_text_as_html el = Some html" "html \<noteq> []"
        by (auto simp: has_html_def split: option.splits)
      with not_image tab assms True show ?thesis
        by (auto simp: process_element_def empty_plain_table_def empty_summary_def)
    next
      case False
      then have no: "el_text_as_html el = None \<or> el_text_as_html el = Some []"
        by (auto simp: has_html_def split: option.splits)
      show ?thesis
      proof (cases "el_text el")
        case None
        with not_image tab no assms show ?thesis
          by (auto simp: process_element_def)
      next
        case (Some t)
        with not_image tab no assms False \<open>is_table el\<close> show ?thesis
          by (auto simp: process_element_def empty_plain_table_def empty_summary_def)
      qed
    qed
  next
    case False
    with not_image assms show ?thesis
      by (auto simp: process_element_def is_table_def empty_plain_table_def empty_summary_def
          strip_Nil split: option.splits if_splits)
  qed
qed

text \<open>
  Claim C1, as stated, fails in two ways. A table element with empty text, no HTML
  rendering and no image bytes gets a Record, and the Record's content is empty. An image
  element whose description the vision model returns as the empty string gets a Record
  with empty content as well.
\<close>

theorem empty_content_is_recorded:
  "blank_text blank_table_el \<and> no_image_bytes blank_table_el \<and>
   (case process_elements (sample_services []) [blank_table_el] start of
      Inl raised \<Rightarrow> []
    | Inr st \<Rightarrow> documents st) =
     [\<lparr>page_content = [], md_source = PDF_PATH, md_page_number = Some 12, md_type = ''table''\<rparr>] \<and>
   fst (summarize_try (vision_silent []) png_bytes start) = Inr [] \<and>
   (case process_elements (vision_silent []) [image_el] start of
      Inl raised \<Rightarrow> []
    | Inr st \<Rightarrow> documents st) =
     [\<lparr>page_content = [], md_source = PDF_PATH, md_page_number = Some 2,
       md_type = ''image_summary''\<rparr>]"
  by (simp add: process_element_def sample_element_types sample_fields blank_text_def
      no_image_bytes_def strip_def start_def png_bytes_def vision_silent_def
      sample_services_def summarize_image_def summarize_try_def encode_image_to_base64_def)

text \<open>
  Claim C1, amended. For every element whose kind name does not contain \<^verbatim>\<open>Table\<close>:
  if it has blank text and no image bytes, the loop produces no Record for it and changes
  nothing else; and if it is not an image either, the loop produces no Record when its
  text is blank and otherwise one Record whose content is the element's text, which is
  not blank. Every Record the loop appends has non-empty content, with two exceptions
  only: the Record of a table element with empty text and no HTML rendering, and the
  Record of an image whose description the vision model returned as the empty string.
\<close>

theorem blank_elements_dropped:
  "(\<not> is_table el \<and> blank_text el \<and> no_image_bytes el \<longrightarrow> process_element sv el st = Inr st)
   \<and> (\<not> is_table el \<and> element_type el \<noteq> ''Image'' \<longrightarrow>
        (if blank_text el then process_element sv el st = Inr st
         else (\<exists>t. el_text el = Some t \<and> strip t \<noteq> [] \<and>
                 process_element sv el st =
                   Inr (st\<lparr>documents := documents st @
                          [\<lparr>page_content = t,
                            md_source = PDF_PATH,
                            md_page_number = el_page_number el,
                            md_type = element_type el\<rparr>]\<rparr>))))
   \<and> (\<forall>st'. process_element sv el st = Inr st' \<longrightarrow>
          documents st' = documents st
          \<or> (\<exists>d. documents st' = documents st @ [d]
                 \<and> (page_content d = [] \<longleftrightarrow> empty_plain_table el \<or> empty_summary sv el st)))"
proof (intro conjI allI impI)
  assume "\<not> is_table el \<and> blank_text el \<and> no_image_bytes el"
  then show "process_element sv el st = Inr st"
    by (auto simp: process_element_def is_table_def blank_text_def no_image_bytes_def
        split: option.splits)
next
  assume "\<not> is_table el \<and> element_type el \<noteq> ''Image''"
  then show "if blank_text el then process_element sv el st = Inr st
         else (\<exists>t. el_text el = Some t \<and> strip t \<noteq> [] \<and>
                 process_element sv el st =
                   Inr (st\<lparr>documents := documents st @
                          [\<lparr>page_content = t,
                            md_source = PDF_PATH,
                            md_page_number = el_page_number el,
                            md_type = element_type el\<rparr>]\<rparr>))"
    by (auto simp: process_element_def is_table_def blank_text_def split: option.splits)
next
  fix st'
  assume "process_element sv el st = Inr st'"
  then show "documents st' = documents st
          \<or> (\<exists>d. documents st' = documents st @ [d]
                 \<and> (page_content d = [] \<longleftrightarrow> empty_plain_table el \<or> empty_summary sv el st))"
    by (rule process_element_record)
qed

theorem blank_elements_dropped_witness:
  "blank_text blank_title_el \<and> no_image_bytes blank_title_el \<and>
   process_element (sample_services []) blank_title_el start = Inr start \<and>
   blank_text (image_el\<lparr>el_image_bytes := Some []\<rparr>) \<and>
   no_image_bytes (image_el\<lparr>el_image_bytes := Some []\<rparr>) \<and>
   process_element (sample_services []) (image_el\<lparr>el_image_bytes := Some []\<rparr>) start = Inr start \<and>
   process_element (sample_services []) narrative_el start =
     Inr (start\<lparr>documents :=
            [\<lparr>page_content = ''The sum of two numbers is called addition.'',
              md_source = PDF_PATH, md_page_number = Some 1, md_type = ''NarrativeText''\<rparr>]\<rparr>) \<and>
   list_all (\<lambda>d. page_content d \<noteq> [])
     (case process_element (sample_services []) html_table_el start of
        Inl raised \<Rightarrow> []
      | Inr st \<Rightarrow> documents st)"
proof -
  have t: "\<not> is_table blank_title_el"
    by (simp add: is_table_def sample_element_types)
  have b: "blank_text blank_title_el \<and> no_image_bytes blank_title_el"
    by (simp add: blank_text_def no_image_bytes_def sample_fields strip_def isspace_def)
  let ?img = "image_el\<lparr>el_image_bytes := Some []\<rparr>"
  have ty: "element_type ?img = ''Image''"
    using sample_element_types(5) by (simp add: element_type_def)
  have ti: "\<not> is_table ?img"
    by (simp add: is_table_def ty)
  have bi: "blank_text ?img \<and> no_image_bytes ?img"
    by (simp add: blank_text_def no_image_bytes_def sample_fields strip_def)
  have tn: "\<not> is_table narrative_el"
    by (simp add: is_table_def sample_element_types)
  have n: "element_type narrative_el \<noteq> ''Image'' \<and> \<not> blank_text narrative_el"
    by (simp add: sample_element_types blank_text_def sample_fields strip_def isspace_def)
  have x: "process_element (sample_services []) blank_title_el start = Inr start"
    using blank_elements_dropped [of blank_title_el "sample_services []" start] t b by blast
  have y: "process_element (sample_services []) ?img start = Inr start"
    using blank_elements_dropped [of ?img "sample_services []" start] ti bi by blast
  from blank_elements_dropped [of narrative_el "sample_services []" start] tn n
  have "\<exists>t. el_text narrative_el = Some t \<and>
      process_element (sample_services []) narrative_el start =
        Inr (start\<lparr>documents := documents start @
               [\<lparr>page_content = t,
                 md_source = PDF_PATH,
                 md_page_number = el_page_number narrative_el,
                 md_type = element_type narrative_el\<rparr>]\<rparr>)"
    by auto
  then have z: "process_element (sample_services []) narrative_el start =
      Inr (start\<lparr>documents :=
            [\<lparr>page_content = ''The sum of two numbers is called addition.'',
              md_source = PDF_PATH, md_page_number = Some 1, md_type = ''NarrativeText''\<rparr>]\<rparr>)"
    by (auto simp: sample_fields sample_element_types start_def)
  obtain st' where run: "process_element (sample_services []) html_table_el start = Inr st'"
    and one: "length (documents st') = 1"
    by (simp add: process_element_def sample_element_types sample_fields start_def)
  have ex: "\<not> empty_plain_table html_table_el
      \<and> \<not> empty_summary (sample_services []) html_table_el start"
    by (simp add: empty_plain_table_def empty_summary_def has_html_def sample_fields
        sample_element_types)
  from blank_elements_dropped [of html_table_el "sample_services []" start] run
  have "documents st' = documents start
      \<or> (\<exists>d. documents st' = documents start @ [d]
             \<and> (page_content d = [] \<longleftrightarrow> empty_plain_table html_table_el
                   \<or> empty_summary (sample_services []) html_table_el start))"
    by blast
  with one ex have "list_all (\<lambda>d. page_content d \<noteq> []) (documents st')"
    by (auto simp: start_def)
  with run have w: "list_all (\<lambda>d. page_content d \<noteq> [])
     (case process_element (sample_services []) html_table_el start of
        Inl raised \<Rightarrow> []
      | Inr st \<Rightarrow> documents st)"
    by simp
  from b bi x y z w show ?thesis by blast
qed

text \<open>
  Claim C2, as stated, fails: when the vision model raises on an image, the loop still
  appends a Record for that image, with the fallback string as content, and the run
  stores it.
\<close>

theorem failed_summary_is_recorded:
  "fst (summarize_try (vision_down [image_el]) png_bytes start) =
     Inl (ServiceError ''model unavailable'') \<and>
   (case process_elements (vision_down [image_el]) [image_el] start of
      Inl raised \<Rightarrow> []
    | Inr st \<Rightarrow> documents st) =
     [\<lparr>page_content = ''Failed to summarize image'', md_source = PDF_PATH,
       md_page_number = Some 2, md_type = ''image_summary''\<rparr>] \<and>
   fst (index_main (vision_down [image_el]) 0 []) = Indexed \<and>
   store (snd (index_main (vision_down [image_el]) 0 [])) =
     [\<lparr>page_content = ''Failed to summarize image'', md_source = PDF_PATH,
       md_page_number = Some 2, md_type = ''image_summary''\<rparr>]"
proof -
  have loop: "\<And>n tr. process_elements (vision_down [image_el]) [image_el]
        \<lparr>documents = [], vision_state = n, store = [], trace = tr\<rparr> =
      Inr \<lparr>documents =
             [\<lparr>page_content = ''Failed to summarize image'', md_source = PDF_PATH,
               md_page_number = Some 2, md_type = ''image_summary''\<rparr>],
           vision_state = Suc n, store = [],
           trace = tr @ [VisionInvoke (Messages [vision_message ''AAAA''])]\<rparr>"
    by (simp add: process_element_def sample_element_types sample_fields png_bytes_def
        vision_down_def sample_services_def summarize_image_def summarize_try_def
        encode_image_to_base64_def)
  have main: "index_main (vision_down [image_el]) 0 [] =
      (Indexed,
       \<lparr>documents =
          [\<lparr>page_content = ''Failed to summarize image'', md_source = PDF_PATH,
            md_page_number = Some 2, md_type = ''image_summary''\<rparr>],
        vision_state = 2,
        store =
          [\<lparr>page_content = ''Failed to summarize image'', md_source = PDF_PATH,
            md_page_number = Some 2, md_type = ''image_summary''\<rparr>],
        trace =
          [EmbeddingsInit, VisionInit, VisionInvoke (Prompt ''test''), PartitionPdf PDF_PATH,
           VisionInvoke (Messages [vision_message ''AAAA'']),
           QdrantFromDocuments
             [\<lparr>page_content = ''Failed to summarize image'', md_source = PDF_PATH,
               md_page_number = Some 2, md_type = ''image_summary''\<rparr>]
             QDRANT_URL COLLECTION_NAME True]\<rparr>)"
  proof -
    have init: "init_models (vision_down [image_el])
          \<lparr>documents = [], vision_state = 0, store = [], trace = []\<rparr> =
        (None, \<lparr>documents = [], vision_state = 1, store = [],
                trace = [EmbeddingsInit, VisionInit, VisionInvoke (Prompt ''test'')]\<rparr>)"
      by (simp add: init_models_def vision_down_def sample_services_def)
    have misc: "path_exists (vision_down [image_el]) PDF_PATH"
      "partition_pdf (vision_down [image_el]) PDF_PATH = Inr [image_el]"
      "\<And>s docs. from_documents (vision_down [image_el]) s docs QDRANT_URL COLLECTION_NAME True
          = (None, docs)"
      by (simp_all add: vision_down_def sample_services_def)
    show ?thesis
      by (simp add: index_main_def init misc loop store_documents_def
          del: process_elements.simps)
  qed
  show ?thesis
    using loop [of 0 "[]"] sample_summary_fails [of "[image_el]"] main
    by (simp add: start_def)
qed

text \<open>
  Claim C2, amended. For every image element with image bytes whose summarization
  fails, the loop appends one Record for that element, with the content
  \<^verbatim>\<open>Failed to summarize image\<close> and the type \<^verbatim>\<open>image_summary\<close>, and goes on with
  the remaining elements.
\<close>

theorem failed_summary_gets_fallback_record:
  assumes "element_type el = ''Image''"
    and "el_image_bytes el = Some b"
    and "b \<noteq> []"
    and "summarize_try sv b st = (Inl e, st')"
  shows "process_elements sv (el # els) st =
           process_elements sv els
             (st'\<lparr>documents := documents st @
                  [\<lparr>page_content = ''Failed to summarize image'',
                    md_source = PDF_PATH,
                    md_page_number = el_page_number el,
                    md_type = ''image_summary''\<rparr>]\<rparr>)"
  using assms summarize_try_keeps [OF assms(4)]
  by (simp add: process_element_def summarize_image_def)

theorem failed_summary_gets_fallback_record_witness:
  "process_elements (vision_down []) [image_el, narrative_el] start =
     Inr \<lparr>documents =
            [\<lparr>page_content = ''Failed to summarize image'', md_source = PDF_PATH,
              md_page_number = Some 2, md_type = ''image_summary''\<rparr>,
             \<lparr>page_content = ''The sum of two numbers is called addition.'',
              md_source = PDF_PATH, md_page_number = Some 1, md_type = ''NarrativeText''\<rparr>],
          vision_state = 1, store = [],
          trace = [VisionInvoke (Messages [vision_message ''AAAA''])]\<rparr>"
proof -
  have b: "el_image_bytes image_el = Some png_bytes" "png_bytes \<noteq> []"
    by (simp_all add: sample_fields png_bytes_def)
  have rest: "\<And>st. process_elements (vision_down []) [narrative_el] st =
      Inr (st\<lparr>documents := documents st @
            [\<lparr>page_content = ''The sum of two numbers is called addition.'',
              md_source = PDF_PATH, md_page_number = Some 1, md_type = ''NarrativeText''\<rparr>]\<rparr>)"
    by (simp add: process_element_def sample_element_types sample_fields strip_def isspace_def)
  from failed_summary_gets_fallback_record
    [OF sample_element_types(5) b sample_summary_fails [of "[]"], where els = "[narrative_el]"]
  show ?thesis
    by (simp add: rest start_def sample_fields del: process_elements.simps)
qed

text \<open>
  Claim C9. For every table element whose metadata carries an HTML rendering (a string
  that is not empty), the Record made for it has the content
  \<^verbatim>\<open>Table on page\<close>, the page number, a colon, a line break and that HTML, so the
  content contains the HTML; the element's plain text is the content only when the
  metadata carries no HTML rendering.
\<close>

theorem table_prefers_html:
  assumes "is_table el"
  shows "(\<forall>html. el_text_as_html el = Some html \<and> html \<noteq> [] \<longrightarrow>
            process_element sv el st =
              Inr (st\<lparr>documents := documents st @
                     [\<lparr>page_content =
                         ''Table on page '' @ str_page (el_page_number el) @ '':'' @
                         [CHR 0x0A] @ html,
                       md_source = PDF_PATH,
                       md_page_number = el_page_number el,
                       md_type = ''table''\<rparr>]\<rparr>)
            \<and> contains html
                (''Table on page '' @ str_page (el_page_number el) @ '':'' @ [CHR 0x0A] @ html))
       \<and> (\<forall>t. (el_text_as_html el = None \<or> el_text_as_html el = Some [])
               \<and> el_text el = Some t \<longrightarrow>
            process_element sv el st =
              Inr (st\<lparr>documents := documents st @
                     [\<lparr>page_content = t,
                       md_source = PDF_PATH,
                       md_page_number = el_page_number el,
                       md_type = ''table''\<rparr>]\<rparr>))"
proof -
  have ni: "element_type el \<noteq> ''Image''"
    using assms by (rule table_not_image)
  have c: "\<And>html. contains html
      (''Table on page '' @ str_page (el_page_number el) @ '':'' @ [CHR 0x0A] @ html)"
    using contains_append [of _ "''Table on page '' @ str_page (el_page_number el) @ '':'' @ [CHR 0x0A]"]
    by simp
  show ?thesis
    using assms ni c
    by (auto simp: process_element_def is_table_def)
qed

theorem table_prefers_html_witness:
  "is_table html_table_el \<and>
   process_element (sample_services []) html_table_el start =
     Inr (start\<lparr>documents :=
            [\<lparr>page_content =
                ''Table on page 3:'' @ [CHR 0x0A] @ ''<table><tr><td>x</td><td>y</td></tr></table>'',
              md_source = PDF_PATH, md_page_number = Some 3, md_type = ''table''\<rparr>]\<rparr>) \<and>
   is_table (html_table_el\<lparr>el_text_as_html := None\<rparr>) \<and>
   process_element (sample_services []) (html_table_el\<lparr>el_text_as_html := None\<rparr>) start =
     Inr (start\<lparr>documents :=
            [\<lparr>page_content = ''x y'',
              md_source = PDF_PATH, md_page_number = Some 3, md_type = ''table''\<rparr>]\<rparr>)"
proof -
  let ?plain = "html_table_el\<lparr>el_text_as_html := None\<rparr>"
  have t: "is_table html_table_el"
    by (simp add: is_table_def sample_element_types)
  have tp: "is_table ?plain"
    using t by (simp add: is_table_def element_type_def)
  have page: "str_int 3 = ''3''"
    by (simp add: str_int_def str_nat.simps)
  have h: "el_text_as_html html_table_el = Some ''<table><tr><td>x</td><td>y</td></tr></table>''
      \<and> ''<table><tr><td>x</td><td>y</td></tr></table>'' \<noteq> []"
    by (simp add: sample_fields)
  have p: "(el_text_as_html ?plain = None \<or> el_text_as_html ?plain = Some [])
      \<and> el_text ?plain = Some ''x y''"
    by (simp add: sample_fields)
  have a: "process_element (sample_services []) html_table_el start =
      Inr (start\<lparr>documents := documents start @
             [\<lparr>page_content =
                 ''Table on page '' @ str_page (el_page_number html_table_el) @ '':'' @
                 [CHR 0x0A] @ ''<table><tr><td>x</td><td>y</td></tr></table>'',
               md_source = PDF_PATH,
               md_page_number = el_page_number html_table_el,
               md_type = ''table''\<rparr>]\<rparr>)"
    using table_prefers_html [OF t, of "sample_services []" start] h by blast
  have b: "process_element (sample_services []) ?plain start =
      Inr (start\<lparr>documents := documents start @
             [\<lparr>page_content = ''x y'',
               md_source = PDF_PATH,
               md_page_number = el_page_number ?plain,
               md_type = ''table''\<rparr>]\<rparr>)"
    using table_prefers_html [OF tp, of "sample_services []" start] p by blast
  from t tp a b show ?thesis
    by (simp add: sample_fields page start_def)
qed

section \<open>The indexing run\<close>

lemma process_element_keeps:
  "process_element sv el st = Inr st' \<Longrightarrow>
   store st' = store st \<and> store_calls st' = store_calls st"
  "process_element sv el st = Inl (e, st') \<Longrightarrow>
   store st' = store st \<and> store_calls st' = store_calls st"
  by (auto simp: process_element_def store_calls_def
      split: if_splits option.splits sum.splits prod.splits dest!: summarize_image_keeps)

lemma process_elements_keeps:
  "process_elements sv els st = Inr st' \<Longrightarrow>
   store st' = store st \<and> store_calls st' = store_calls st"
  "process_elements sv els st = Inl (e, st') \<Longrightarrow>
   store st' = store st \<and> store_calls st' = store_calls st"
proof (induction els arbitrary: st)
  case Nil
  { case 1 then show ?case by simp }
  { case 2 then show ?case by simp }
next
  case (Cons el els)
  { case 1
    then show ?case
      using Cons.IH(1) process_element_keeps(1) [of sv el st]
      by (auto split: sum.splits) }
  { case 2
    then show ?case
      using Cons.IH(2) process_element_keeps [of sv el st]
      by (auto split: sum.splits) }
qed

lemma init_models_keeps:
  "init_models sv st = (r, st') \<Longrightarrow>
   documents st' = documents st \<and> store st' = store st \<and> store_calls st' = store_calls st"
  by (auto simp: init_models_def store_calls_def split: option.splits prod.splits)

text \<open>
  Claim C7. For every indexing run that ends with zero Records in the document list, and
  so for every run whose loop produces none, the run does not end as an indexed run, the
  vector store is in the state it had before the run, and no call of the run is a
  vector-store call.
\<close>

theorem no_records_no_store_call:
  assumes "index_main sv w s = (outcome, st')"
    and "documents st' = []"
  shows "outcome \<noteq> Indexed \<and> store st' = s \<and> store_calls st' = []"
proof (cases "path_exists sv PDF_PATH")
  case False
  with assms(1) show ?thesis by (auto simp: index_main_def store_calls_def)
next
  case True
  let ?st0 = "\<lparr>documents = [], vision_state = w, store = s, trace = []\<rparr>"
  obtain r st1 where init: "init_models sv ?st0 = (r, st1)"
    by (cases "init_models sv ?st0")
  from init_models_keeps [OF init]
  have k1: "documents st1 = []" "store st1 = s" "store_calls st1 = []"
    by (simp_all add: store_calls_def)
  show ?thesis
  proof (cases r)
    case (Some e)
    with assms(1) True init k1 show ?thesis by (auto simp: index_main_def)
  next
    case None
    let ?st1 = "st1\<lparr>trace := trace st1 @ [PartitionPdf PDF_PATH]\<rparr>"
    have k2: "store ?st1 = s" "store_calls ?st1 = []"
      using k1 by (simp_all add: store_calls_def)
    show ?thesis
    proof (cases "partition_pdf sv PDF_PATH")
      case (Inl e)
      with assms(1) True init None k2 show ?thesis by (auto simp: index_main_def)
    next
      case (Inr elements)
      note parts = this
      show ?thesis
      proof (cases "process_elements sv elements ?st1")
        case (Inl raised)
        obtain e st2 where raised: "raised = (e, st2)" by (cases raised)
        from process_elements_keeps(2) [of sv elements ?st1 e st2] Inl raised k2
        have "store st2 = s \<and> store_calls st2 = []" by simp
        moreover from assms(1) True init None parts Inl raised
        have "outcome = IndexRaised e \<and> st' = st2" by (auto simp: index_main_def)
        ultimately show ?thesis by simp
      next
        case (Inr st2)
        note loop = this
        from process_elements_keeps(1) [OF loop] k2
        have k3: "store st2 = s \<and> store_calls st2 = []" by simp
        show ?thesis
        proof (cases "documents st2 = []")
          case True
          with assms(1) \<open>path_exists sv PDF_PATH\<close> init None parts loop
          have "outcome = NoDocuments \<and> st' = st2" by (auto simp: index_main_def)
          with k3 show ?thesis by simp
        next
          case False
          with assms(1) \<open>path_exists sv PDF_PATH\<close> init None parts loop
          have "documents st' = documents st2"
            by (auto simp: index_main_def store_documents_def split: prod.splits)
          with False assms(2) show ?thesis by simp
        qed
      qed
    qed
  qed
qed

lemma sample_blank_run:
  "index_main (sample_services [blank_title_el, blank_title_el]) 5 [old_document] =
     (NoDocuments,
      \<lparr>documents = [], vision_state = 6, store = [old_document],
       trace = [EmbeddingsInit, VisionInit, VisionInvoke (Prompt ''test''),
                PartitionPdf PDF_PATH]\<rparr>)"
proof -
  have init: "init_models (sample_services [blank_title_el, blank_title_el])
        \<lparr>documents = [], vision_state = 5, store = [old_document], trace = []\<rparr> =
      (None, \<lparr>documents = [], vision_state = 6, store = [old_document],
              trace = [EmbeddingsInit, VisionInit, VisionInvoke (Prompt ''test'')]\<rparr>)"
    by (simp add: init_models_def sample_services_def)
  have misc: "path_exists (sample_services [blank_title_el, blank_title_el]) PDF_PATH"
    "partition_pdf (sample_services [blank_title_el, blank_title_el]) PDF_PATH =
       Inr [blank_title_el, blank_title_el]"
    by (simp_all add: sample_services_def)
  have el: "\<And>sv st. process_element sv blank_title_el st = Inr st"
    by (simp add: process_element_def sample_element_types sample_fields strip_def isspace_def)
  show ?thesis
    by (simp add: index_main_def init misc el)
qed

theorem no_records_no_store_call_witness:
  "index_main (sample_services [blank_title_el, blank_title_el]) 5 [old_document] =
     (NoDocuments,
      \<lparr>documents = [], vision_state = 6, store = [old_document],
       trace = [EmbeddingsInit, VisionInit, VisionInvoke (Prompt ''test''),
                PartitionPdf PDF_PATH]\<rparr>) \<and>
   NoDocuments \<noteq> Indexed \<and>
   store (snd (index_main (sample_services [blank_title_el, blank_title_el]) 5 [old_document]))
     = [old_document] \<and>
   store_calls (snd (index_main (sample_services [blank_title_el, blank_title_el]) 5 [old_document]))
     = []"
proof -
  let ?st = "\<lparr>documents = [], vision_state = 6 :: nat, store = [old_document],
       trace = [EmbeddingsInit, VisionInit, VisionInvoke (Prompt ''test''),
                PartitionPdf PDF_PATH]\<rparr>"
  have d: "documents ?st = []" by simp
  from no_records_no_store_call [OF sample_blank_run d] sample_blank_run
  show ?thesis by simp
qed

text \<open>
  Claim C8. For every indexing run where the configured PDF path does not exist, the run
  stops at once: no client is constructed, no model is invoked, the PDF is not
  partitioned and the vector store is not called, so the list of calls is empty and both
  servers are in the state they had.
\<close>

theorem missing_pdf_aborts_first:
  assumes "\<not> path_exists sv PDF_PATH"
  shows "index_main sv w s =
           (PdfMissing, \<lparr>documents = [], vision_state = w, store = s, trace = []\<rparr>)"
  using assms by (simp add: index_main_def)

theorem missing_pdf_aborts_first_witness:
  "\<not> path_exists pdf_missing PDF_PATH \<and>
   index_main pdf_missing 5 [old_document] =
     (PdfMissing, \<lparr>documents = [], vision_state = 5, store = [old_document], trace = []\<rparr>)"
proof -
  have h: "\<not> path_exists pdf_missing PDF_PATH"
    by (simp add: pdf_missing_def)
  from h missing_pdf_aborts_first [OF h, of 5 "[old_document]"] show ?thesis
    by simp
qed

end
